theory Spec2Isabelle
  imports Complex_Main "HOL-Library.AList"
begin

section \<open>Exceptions, frames and the processor\<close>

text \<open>
  The program is \<^verbatim>\<open>pdkit/tremor_processor.py\<close> (Python 3, as its first line says).
  Numbers are modelled as reals and complex numbers: a channel holds finite reals (the
  data model's invariant), so missing values are outside the model. What decides a
  comparison in \<^verbatim>\<open>tremor_amplitude\<close> is as the code computes it: the frequency axis in
  double precision, and the magnitudes of the bins by numpy's division and absolute
  value, which are parameters. Sums are exact.
  Every \<^verbatim>\<open>raise\<close> is a value: a function that can fail returns \<open>exn + 'a\<close>, and a
  method that mutates the processor returns the processor together with the exception
  it raised, if any (Python does not undo the assignments made before a raise).
\<close>

datatype exn =
  ValueError | AttributeError | IndexError | TypeError | KeyError | ZeroDivisionError

text \<open>
  A pandas frame: the row labels (time stamps in nanoseconds) and the columns in their
  order, each a name with its values. pandas keeps every column as long as the index;
  \<open>wf_frame\<close> says so.
\<close>

record data_frame =
  index :: "int list"
  columns :: "(string \<times> real list) list"

definition wf_frame :: "data_frame \<Rightarrow> bool" where
  "wf_frame df = list_all (\<lambda>c. length (snd c) = length (index df)) (columns df)"

text \<open>The frame that \<^verbatim>\<open>fft_signal\<close> builds: three columns and the index.\<close>

record spectral_frame =
  sf_index :: "int list"
  filtered_signal :: "real list"
  transformed_signal :: "complex list"
  dt :: "real list"

record TremorProcessor =
  amplitude :: real
  frequency :: real

definition SAMPLING_FREQUENCY :: real where "SAMPLING_FREQUENCY = 100"
definition CUTOFF_FREQUENCY_HIGH :: real where "CUTOFF_FREQUENCY_HIGH = 2"
definition FILTER_ORDER :: nat where "FILTER_ORDER = 2"
definition WINDOW :: nat where "WINDOW = 256"
definition LOWER_FREQUENCY_TREMOR :: real where "LOWER_FREQUENCY_TREMOR = 2"
definition UPPER_FREQUENCY_TREMOR :: real where "UPPER_FREQUENCY_TREMOR = 10"

text \<open>\<^verbatim>\<open>__init__\<close>: both fields start at 0.\<close>

definition TremorProcessor_init :: TremorProcessor where
  "TremorProcessor_init = \<lparr>amplitude = 0, frequency = 0\<rparr>"

section \<open>Python, numpy and pandas operations the code uses\<close>

text \<open>\<^verbatim>\<open>data_frame.name\<close>: the column, or AttributeError when there is none.\<close>

definition getattr_column :: "string \<Rightarrow> data_frame \<Rightarrow> exn + real list" where
  "getattr_column name df =
     (case map_of (columns df) name of None \<Rightarrow> Inl AttributeError | Some v \<Rightarrow> Inr v)"

text \<open>
  \<^verbatim>\<open>data_frame[name] = array\<close>: pandas raises ValueError unless the array is as long as
  the index; an existing column is replaced in its place, a new one is put last.
  (pandas treats a frame whose index is empty differently: a non-empty array re-indexes
  it, and the other columns are filled with missing values, which real-valued columns
  cannot hold. The statements about this assignment are about frames with at least one
  row, or about arrays of the index's length.)
\<close>

definition setitem_column :: "string \<Rightarrow> real list \<Rightarrow> data_frame \<Rightarrow> exn + data_frame" where
  "setitem_column name v df =
     (if length v = length (index df)
      then Inr (df\<lparr>columns := AList.update name v (columns df)\<rparr>)
      else Inl ValueError)"

text \<open>
  \<^verbatim>\<open>data_frame.name = array\<close>: the same assignment when the frame has the column;
  otherwise pandas sets a plain attribute of the object and the columns stay as they are.
\<close>

definition setattr_column :: "string \<Rightarrow> real list \<Rightarrow> data_frame \<Rightarrow> exn + data_frame" where
  "setattr_column name v df =
     (if name \<in> fst ` set (columns df) then setitem_column name v df else Inr df)"

text \<open>
  Double precision (IEEE 754 binary64): a real is rounded to the nearest multiple of the
  unit in its last place, \<open>2\<close> to the power \<open>\<lfloor>log\<^sub>2 |x|\<rfloor> - 52\<close> (and \<open>2\<close> to the power
  \<open>- 1074\<close> for subnormal numbers), a tie going to the even multiple. Overflow is not
  modelled: the quantities rounded here are bounded by the sampling frequency. The
  conversion of an integer and the division are correctly rounded.
\<close>

definition round_half_even :: "real \<Rightarrow> int" where
  "round_half_even x =
     (if x - of_int \<lfloor>x\<rfloor> < 1 / 2 then \<lfloor>x\<rfloor>
      else if 1 / 2 < x - of_int \<lfloor>x\<rfloor> then \<lfloor>x\<rfloor> + 1
      else if even \<lfloor>x\<rfloor> then \<lfloor>x\<rfloor> else \<lfloor>x\<rfloor> + 1)"

definition double_round :: "real \<Rightarrow> real" where
  "double_round x =
     (if x = 0 then 0
      else of_int (round_half_even (x / 2 powr of_int (max \<lfloor>log 2 \<bar>x\<bar>\<rfloor> (- 1022) - 52)))
             * 2 powr of_int (max \<lfloor>log 2 \<bar>x\<bar>\<rfloor> (- 1022) - 52))"

definition float_of_int :: "nat \<Rightarrow> real" where
  "float_of_int n = double_round (real n)"

definition float_div :: "real \<Rightarrow> real \<Rightarrow> real" where
  "float_div a b = double_round (a / b)"

text \<open>\<^verbatim>\<open>int(x)\<close> on a float truncates towards zero.\<close>

definition py_int :: "real \<Rightarrow> int" where
  "py_int x = (if 0 \<le> x then \<lfloor>x\<rfloor> else \<lceil>x\<rceil>)"

text \<open>
  \<^verbatim>\<open>xs[ll:rr]\<close> by position: a negative bound counts from the end, and both bounds
  are clipped to the sequence.
\<close>

definition slice_bound :: "int \<Rightarrow> nat \<Rightarrow> nat" where
  "slice_bound i n = (if i < 0 then nat (max 0 (int n + i)) else min (nat i) n)"

definition py_slice :: "int \<Rightarrow> int \<Rightarrow> 'a list \<Rightarrow> 'a list" where
  "py_slice ll rr xs =
     take (slice_bound rr (length xs) - slice_bound ll (length xs))
       (drop (slice_bound ll (length xs)) xs)"

text \<open>
  \<^verbatim>\<open>np.arange(start, stop, step)\<close>: \<open>\<lceil>(stop - start) / step\<rceil>\<close> values (none when that
  is not positive), the \<open>i\<close>-th being \<open>start + i * step\<close>. numpy computes the quotient
  and the values in double precision; here they are exact, which gives the same number
  of values wherever rounding does not carry the quotient across an integer, as at the
  inputs evaluated below (\<open>0.01 / 0.01\<close>, \<open>0.02 / 0.01\<close>, \<open>0.025 / 0.01\<close>).
\<close>

definition np_arange :: "real \<Rightarrow> real \<Rightarrow> real \<Rightarrow> real list" where
  "np_arange start stop step =
     map (\<lambda>i. start + real i * step) [0..<nat \<lceil>(stop - start) / step\<rceil>]"

text \<open>
  \<^verbatim>\<open>a * b\<close> on one-dimensional arrays: element by element when the lengths agree,
  a one-element array is stretched to the other's length, and any other pair of
  lengths raises ValueError.
\<close>

definition np_multiply :: "real list \<Rightarrow> real list \<Rightarrow> exn + real list" where
  "np_multiply xs ys =
     (if length xs = length ys then Inr (map2 (*) xs ys)
      else if length xs = 1 then Inr (map (\<lambda>y. hd xs * y) ys)
      else if length ys = 1 then Inr (map (\<lambda>x. x * hd ys) xs)
      else Inl ValueError)"

text \<open>\<^verbatim>\<open>a[range(m)]\<close>: the first \<open>m\<close> entries, IndexError when there are fewer.\<close>

definition take_range :: "nat \<Rightarrow> 'a list \<Rightarrow> exn + 'a list" where
  "take_range m xs = (if m \<le> length xs then Inr (take m xs) else Inl IndexError)"

text \<open>\<^verbatim>\<open>a[mask]\<close> with a boolean mask: the entries where the mask holds, in order;
  IndexError when the mask has another length.\<close>

definition mask_select :: "bool list \<Rightarrow> 'a list \<Rightarrow> exn + 'a list" where
  "mask_select flags xs =
     (if length flags = length xs then Inr (map snd (filter fst (zip flags xs)))
      else Inl IndexError)"

text \<open>
  \<^verbatim>\<open>a.argmax(axis=0)\<close>: the first position of the greatest entry; ValueError on an
  empty array. The loop keeps the best position so far and replaces it only on a
  strictly greater entry.
\<close>

fun argmax_loop :: "nat \<Rightarrow> real \<Rightarrow> nat \<Rightarrow> real list \<Rightarrow> nat" where
  "argmax_loop best mx i [] = best"
| "argmax_loop best mx i (x # xs) =
     (if mx < x then argmax_loop i x (Suc i) xs else argmax_loop best mx (Suc i) xs)"

definition np_argmax :: "real list \<Rightarrow> exn + nat" where
  "np_argmax xs = (case xs of [] \<Rightarrow> Inl ValueError | x # r \<Rightarrow> Inr (argmax_loop 0 x 1 r))"

text \<open>
  \<^verbatim>\<open>scipy.signal.hann(M)\<close>, the symmetric Hann window: \<open>M\<close> values
  \<open>1/2 - 1/2 cos (2 \<pi> n / (M - 1))\<close>; a window of one point is \<open>[1]\<close>.
\<close>

definition hann :: "nat \<Rightarrow> real list" where
  "hann M =
     (if M \<le> 1 then replicate M 1
      else map (\<lambda>n. 1 / 2 - 1 / 2 * cos (2 * pi * real n / real (M - 1))) [0..<M])"

text \<open>
  \<^verbatim>\<open>fft(a)\<close>, the discrete Fourier transform of a real array, of the same length:
  \<open>X k = \<Sum> j < n. a j * exp (- 2 \<pi> i j k / n)\<close>; ValueError on an empty array.
\<close>

definition fft :: "real list \<Rightarrow> exn + complex list" where
  "fft xs =
     (if xs = [] then Inl ValueError
      else Inr (map (\<lambda>k. \<Sum>j<length xs.
                  complex_of_real (xs ! j) * cis (- (2 * pi * real j * real k / real (length xs))))
                [0..<length xs]))"

text \<open>
  \<^verbatim>\<open>pd.DataFrame(data, index=..., columns=[...])\<close> on three arrays: ValueError unless
  each array is as long as the index.
\<close>

definition pd_DataFrame ::
  "int list \<Rightarrow> real list \<Rightarrow> complex list \<Rightarrow> real list \<Rightarrow> exn + spectral_frame" where
  "pd_DataFrame idx fs ts dts =
     (if length fs = length idx \<and> length ts = length idx \<and> length dts = length idx
      then Inr \<lparr>sf_index = idx, filtered_signal = fs, transformed_signal = ts, dt = dts\<rparr>
      else Inl ValueError)"

text \<open>
  The numerical routines of scipy and pandas that the code calls and that are not
  modelled here are parameters: bin averaging (\<^verbatim>\<open>resample(..).mean()\<close>, given the bin
  width in seconds), \<^verbatim>\<open>interpolate(method='linear')\<close>, \<^verbatim>\<open>interp1d\<close> (which returns
  the interpolant), \<^verbatim>\<open>butter(order, Wn, 'high', analog=False)\<close>, \<^verbatim>\<open>lfilter\<close> and
  \<^verbatim>\<open>welch(x, fs, nperseg=window)\<close>. Each may raise. So are two operations of numpy on
  complex doubles, which do not raise: the division of a complex number by an integer
  and the absolute value.
\<close>

record env =
  pd_resample_mean :: "real \<Rightarrow> data_frame \<Rightarrow> exn + data_frame"
  pd_interpolate :: "data_frame \<Rightarrow> exn + data_frame"
  interp1d :: "real list \<Rightarrow> real list \<Rightarrow> exn + (real list \<Rightarrow> exn + real list)"
  butter :: "nat \<Rightarrow> real \<Rightarrow> exn + (real list \<times> real list)"
  lfilter :: "real list \<Rightarrow> real list \<Rightarrow> real list \<Rightarrow> exn + real list"
  welch :: "real list \<Rightarrow> real \<Rightarrow> nat \<Rightarrow> exn + (real list \<times> real list)"
  complex_divide :: "complex \<Rightarrow> nat \<Rightarrow> complex"
  complex_abs :: "complex \<Rightarrow> real"

section \<open>The methods of TremorProcessor\<close>

definition resample_signal :: "env \<Rightarrow> data_frame \<Rightarrow> real \<Rightarrow> exn + data_frame" where
  "resample_signal E df sampling_frequency =
     (if sampling_frequency = 0 then Inl ZeroDivisionError else
      case pd_resample_mean E (1 / sampling_frequency) df of Inl e \<Rightarrow> Inl e
      | Inr df_resampled \<Rightarrow>
      case getattr_column ''td'' df of Inl e \<Rightarrow> Inl e | Inr td \<Rightarrow>
      case getattr_column ''mag_sum_acc'' df of Inl e \<Rightarrow> Inl e | Inr mag \<Rightarrow>
      case interp1d E td mag of Inl e \<Rightarrow> Inl e | Inr f \<Rightarrow>
      if td = [] then Inl IndexError else
      case f (np_arange (hd td) (last td) (1 / sampling_frequency)) of Inl e \<Rightarrow> Inl e
      | Inr ys \<Rightarrow>
      case setattr_column ''mag_sum_acc'' ys df_resampled of Inl e \<Rightarrow> Inl e
      | Inr df_assigned \<Rightarrow> pd_interpolate E df_assigned)"

definition filter_signal :: "env \<Rightarrow> data_frame \<Rightarrow> real \<Rightarrow> nat \<Rightarrow> exn + data_frame" where
  "filter_signal E df cutoff_frequency filter_order =
     (case butter E filter_order (2 * cutoff_frequency / SAMPLING_FREQUENCY) of Inl e \<Rightarrow> Inl e
      | Inr (b, a) \<Rightarrow>
      case getattr_column ''mag_sum_acc'' df of Inl e \<Rightarrow> Inl e | Inr mag \<Rightarrow>
      case lfilter E b a mag of Inl e \<Rightarrow> Inl e | Inr filtered \<Rightarrow>
      setitem_column ''filtered_signal'' filtered df)"

definition fft_signal :: "data_frame \<Rightarrow> nat \<Rightarrow> exn + spectral_frame" where
  "fft_signal df window =
     (case getattr_column ''filtered_signal'' df of Inl e \<Rightarrow> Inl e | Inr fs \<Rightarrow>
      let signal_length = length fs;
          ll = py_int (real signal_length / 2 - real window / 2);
          rr = py_int (real signal_length / 2 + real window / 2);
          msa = py_slice ll rr fs
      in case np_multiply msa (hann window) of Inl e \<Rightarrow> Inl e | Inr msa_window \<Rightarrow>
         case fft msa_window of Inl e \<Rightarrow> Inl e | Inr transformed \<Rightarrow>
         case getattr_column ''td'' df of Inl e \<Rightarrow> Inl e | Inr td \<Rightarrow>
         pd_DataFrame (py_slice ll rr (index df)) msa_window transformed (py_slice ll rr td))"

text \<open>
  Entry \<open>k\<close> of the frequency axis of \<^verbatim>\<open>tremor_amplitude\<close> for \<open>signal_length\<close> rows:
  \<^verbatim>\<open>T = signal_length / SAMPLING_FREQUENCY\<close> and \<^verbatim>\<open>frq = k / T\<close>, an integer divided by
  a float each time.
\<close>

definition axis_frequency :: "nat \<Rightarrow> nat \<Rightarrow> real" where
  "axis_frequency signal_length k =
     float_div (float_of_int k) (float_div (float_of_int signal_length) SAMPLING_FREQUENCY)"

definition tremor_amplitude ::
  "env \<Rightarrow> TremorProcessor \<Rightarrow> spectral_frame \<Rightarrow> real \<Rightarrow> real
     \<Rightarrow> TremorProcessor \<times> exn option" where
  "tremor_amplitude E self fr lower_frequency upper_frequency =
     (let signal_length = length (filtered_signal fr);
          normalised = map (\<lambda>z. complex_divide E z signal_length) (transformed_signal fr);
          frq2 = map (axis_frequency signal_length) [0..<signal_length];
          half = nat (py_int (real signal_length / 2))
      in case take_range half frq2 of Inl e \<Rightarrow> (self, Some e) | Inr frq \<Rightarrow>
         case take_range half normalised of Inl e \<Rightarrow> (self, Some e) | Inr ts \<Rightarrow>
         case mask_select (map (\<lambda>f. lower_frequency < f \<and> f < upper_frequency) frq) ts of
           Inl e \<Rightarrow> (self, Some e)
         | Inr band \<Rightarrow>
         let self1 = self\<lparr>amplitude := sum_list (map (complex_abs E) band)\<rparr>
         in case np_argmax (map (complex_abs E) ts) of Inl e \<Rightarrow> (self1, Some e)
            | Inr j \<Rightarrow> (self1\<lparr>frequency := frq ! j\<rparr>, None))"

definition tremor_amplitude_by_welch ::
  "env \<Rightarrow> TremorProcessor \<Rightarrow> data_frame \<Rightarrow> nat \<Rightarrow> real \<Rightarrow> real
     \<Rightarrow> TremorProcessor \<times> exn option" where
  "tremor_amplitude_by_welch E self df window lower_frequency upper_frequency =
     (case getattr_column ''filtered_signal'' df of Inl e \<Rightarrow> (self, Some e) | Inr fs \<Rightarrow>
      case welch E fs SAMPLING_FREQUENCY window of Inl e \<Rightarrow> (self, Some e)
      | Inr (frq, Pxx_den) \<Rightarrow>
      case np_argmax Pxx_den of Inl e \<Rightarrow> (self, Some e) | Inr j \<Rightarrow>
      if length frq \<le> j then (self, Some IndexError) else
      let self1 = self\<lparr>frequency := frq ! j\<rparr>
      in case mask_select (map (\<lambda>f. lower_frequency < f \<and> f < upper_frequency) frq) Pxx_den of
           Inl e \<Rightarrow> (self1, Some e)
         | Inr band \<Rightarrow> (self1\<lparr>amplitude := sum_list band\<rparr>, None))"

text \<open>
  The body of the \<^verbatim>\<open>try\<close> in \<^verbatim>\<open>process\<close>, with the default parameters of every
  stage: the processor as the body leaves it, and the exception that ended it.
\<close>

definition process_body ::
  "env \<Rightarrow> TremorProcessor \<Rightarrow> data_frame \<Rightarrow> string \<Rightarrow> TremorProcessor \<times> exn option" where
  "process_body E self df method =
     (case resample_signal E df SAMPLING_FREQUENCY of Inl e \<Rightarrow> (self, Some e)
      | Inr data_frame_resampled \<Rightarrow>
      case filter_signal E data_frame_resampled CUTOFF_FREQUENCY_HIGH FILTER_ORDER of
        Inl e \<Rightarrow> (self, Some e)
      | Inr data_frame_filtered \<Rightarrow>
      if method = ''fft'' then
        (case fft_signal data_frame_filtered WINDOW of Inl e \<Rightarrow> (self, Some e)
         | Inr data_frame_fft \<Rightarrow>
           tremor_amplitude E self data_frame_fft
             LOWER_FREQUENCY_TREMOR UPPER_FREQUENCY_TREMOR)
      else tremor_amplitude_by_welch E self data_frame_filtered WINDOW
             LOWER_FREQUENCY_TREMOR UPPER_FREQUENCY_TREMOR)"

text \<open>
  \<^verbatim>\<open>process\<close>: the handlers. The first one reads \<^verbatim>\<open>verr.message\<close>, an attribute that
  exceptions do not have in Python 3, so handling a ValueError raises AttributeError
  out of \<^verbatim>\<open>process\<close>; the bare \<^verbatim>\<open>except\<close> logs any other exception and the call
  returns None.
\<close>

definition process ::
  "env \<Rightarrow> TremorProcessor \<Rightarrow> data_frame \<Rightarrow> string \<Rightarrow> TremorProcessor \<times> exn option" where
  "process E self df method =
     (case process_body E self df method of
        (self', None) \<Rightarrow> (self', None)
      | (self', Some e) \<Rightarrow>
          (if e = ValueError then (self', Some AttributeError) else (self', None)))"

section \<open>The specification's vocabulary\<close>

text \<open>
  Bin \<open>k\<close> of an excerpt of \<open>n\<close> samples stands for the frequency
  \<open>k * sampling_rate / n\<close>, in exact arithmetic; the one-sided spectrum is the bins
  \<open>0 .. n div 2 - 1\<close>.
\<close>

definition bin_frequency :: "nat \<Rightarrow> nat \<Rightarrow> real" where
  "bin_frequency n k = real k * SAMPLING_FREQUENCY / real n"

definition in_band :: "real \<Rightarrow> real \<Rightarrow> real \<Rightarrow> bool" where
  "in_band low_hz high_hz f = (low_hz < f \<and> f < high_hz)"

text \<open>The entries of a sequence at the positions \<open>a, ..., b - 1\<close>.\<close>

definition excerpt :: "nat \<Rightarrow> nat \<Rightarrow> 'a list \<Rightarrow> 'a list" where
  "excerpt a b xs = map (\<lambda>i. xs ! i) [a..<b]"

section \<open>Concrete inputs\<close>

text \<open>
  A library environment for concrete instances. Bin averaging is the one for a
  recording with one sample in every bin (each row keeps its values and is labelled by
  the start of its bin); \<^verbatim>\<open>interpolate\<close> finds nothing missing; \<^verbatim>\<open>interp1d\<close> is the
  piecewise-linear interpolant over increasing abscissae, which raises ValueError
  outside their range; the design routine raises ValueError unless the normalised cutoff
  is strictly between 0 and 1, as \<^verbatim>\<open>scipy.signal.butter\<close> does, and otherwise answers
  with the pass-through coefficients \<open>b = [1]\<close>, \<open>a = [1]\<close>, for which \<^verbatim>\<open>lfilter\<close> returns
  its input; the PSD routine answers with three bins; the division and the absolute
  value of complex numbers are exact, as they are in double precision at the values used
  below.
\<close>

fun linear_at :: "real list \<Rightarrow> real list \<Rightarrow> real \<Rightarrow> exn + real" where
  "linear_at (x0 # x1 # xs) (y0 # y1 # ys) x =
     (if x < x0 then Inl ValueError
      else if x \<le> x1 then Inr (y0 + (x - x0) * (y1 - y0) / (x1 - x0))
      else linear_at (x1 # xs) (y1 # ys) x)"
| "linear_at [x0] [y0] x = (if x = x0 then Inr y0 else Inl ValueError)"
| "linear_at xs ys x = Inl ValueError"

fun collect :: "('a \<Rightarrow> exn + 'b) \<Rightarrow> 'a list \<Rightarrow> exn + 'b list" where
  "collect f [] = Inr []"
| "collect f (x # xs) =
     (case f x of Inl e \<Rightarrow> Inl e
      | Inr y \<Rightarrow> (case collect f xs of Inl e \<Rightarrow> Inl e | Inr ys \<Rightarrow> Inr (y # ys)))"

definition sample_interp1d ::
  "real list \<Rightarrow> real list \<Rightarrow> exn + (real list \<Rightarrow> exn + real list)" where
  "sample_interp1d xs ys =
     (if xs = [] \<or> length xs \<noteq> length ys then Inl ValueError
      else Inr (collect (linear_at xs ys)))"

definition sample_env :: env where
  "sample_env =
     \<lparr>pd_resample_mean =
        (\<lambda>w df. Inr (df\<lparr>index := map (\<lambda>t. t - t mod \<lfloor>w * 1000000000\<rfloor>) (index df)\<rparr>)),
      pd_interpolate = Inr,
      interp1d = sample_interp1d,
      butter = (\<lambda>order Wn. if 0 < Wn \<and> Wn < 1 then Inr ([1], [1]) else Inl ValueError),
      lfilter = (\<lambda>b a x. Inr x),
      welch = (\<lambda>x fs nperseg. Inr ([0, fs / 4, fs / 2], [1, 3, 2])),
      complex_divide = (\<lambda>z n. z / of_nat n),
      complex_abs = cmod\<rparr>"

text \<open>Four samples and their transform; the greatest magnitude is in bin 0.\<close>

definition sample_spectrum :: spectral_frame where
  "sample_spectrum =
     \<lparr>sf_index = [0, 10000000, 20000000, 30000000],
      filtered_signal = [4, 3 / 2, - 1, 3 / 2],
      transformed_signal = [6, 5, 0, 5],
      dt = [0, 1 / 100, 2 / 100, 3 / 100]\<rparr>"

text \<open>
  Twenty-eight samples \<open>2 cos (\<pi> j / 2)\<close> and their transform, which is 28 in the bins 7
  and 21 and 0 elsewhere. Bin 7 stands for 25 Hz.
\<close>

definition edge_spectrum :: spectral_frame where
  "edge_spectrum =
     \<lparr>sf_index = map (\<lambda>j. int j * 10000000) [0..<28],
      filtered_signal = map (\<lambda>j. [2, 0, - 2, 0] ! (j mod 4)) [0..<28],
      transformed_signal = replicate 7 0 @ [28] @ replicate 13 0 @ [28] @ replicate 6 0,
      dt = map (\<lambda>j. real j / 100) [0..<28]\<rparr>"

text \<open>Two samples at 100 Hz, 10 ms apart.\<close>

definition two_sample_recording :: data_frame where
  "two_sample_recording =
     \<lparr>index = [0, 10000000],
      columns = [(''td'', [0, 1 / 100]), (''mag_sum_acc'', [1, 2])]\<rparr>"

text \<open>Three samples at 100 Hz, exactly 10 ms apart.\<close>

definition uniform_recording :: data_frame where
  "uniform_recording =
     \<lparr>index = [0, 10000000, 20000000],
      columns = [(''td'', [0, 1 / 100, 2 / 100]), (''x'', [0, 1, 0]),
                 (''mag_sum_acc'', [1, 2, 1])]\<rparr>"

text \<open>Three samples, the last one 15 ms after the second: a recording of 25 ms.\<close>

definition short_recording :: data_frame where
  "short_recording =
     \<lparr>index = [0, 10000000, 25000000],
      columns = [(''td'', [0, 1 / 100, 25 / 1000]), (''x'', [0, 1, 0]),
                 (''mag_sum_acc'', [1, 2, 1])]\<rparr>"

text \<open>A frame with time stamps and a magnitude, and no \<^verbatim>\<open>td\<close> column.\<close>

definition frame_without_td :: data_frame where
  "frame_without_td =
     \<lparr>index = [0, 10000000], columns = [(''mag_sum_acc'', [1, 2])]\<rparr>"

text \<open>A filtered frame of five rows.\<close>

definition filtered_frame :: data_frame where
  "filtered_frame =
     \<lparr>index = [0, 10000000, 20000000, 30000000, 40000000],
      columns = [(''td'', [0, 1 / 100, 2 / 100, 3 / 100, 4 / 100]),
                 (''mag_sum_acc'', [1, 2, 1, 2, 1]),
                 (''filtered_signal'', [1, 2, 3, 4, 5])]\<rparr>"

section \<open>Properties of the array operations\<close>

lemma py_int_half: "nat (py_int (real n / 2)) = n div 2"
  unfolding py_int_def by (simp add: floor_divide_of_nat_eq[of n 2, simplified] ; linarith)

lemma argmax_loop_spec:
  assumes "length ps = i" "best < i" "ps ! best = mx"
    "\<forall>k<i. ps ! k \<le> mx" "\<forall>k<best. ps ! k < mx"
  shows "argmax_loop best mx i xs < length (ps @ xs)
       \<and> (\<forall>k<length (ps @ xs). (ps @ xs) ! k \<le> (ps @ xs) ! argmax_loop best mx i xs)
       \<and> (\<forall>k<argmax_loop best mx i xs. (ps @ xs) ! k < (ps @ xs) ! argmax_loop best mx i xs)"
  using assms
proof (induction xs arbitrary: best mx i ps)
  case Nil
  then show ?case by auto
next
  case (Cons x xs)
  show ?case
  proof (cases "mx < x")
    case True
    have "argmax_loop i x (Suc i) xs < length ((ps @ [x]) @ xs)
       \<and> (\<forall>k<length ((ps @ [x]) @ xs). ((ps @ [x]) @ xs) ! k \<le> ((ps @ [x]) @ xs) ! argmax_loop i x (Suc i) xs)
       \<and> (\<forall>k<argmax_loop i x (Suc i) xs. ((ps @ [x]) @ xs) ! k < ((ps @ [x]) @ xs) ! argmax_loop i x (Suc i) xs)"
    proof (rule Cons.IH)
      show "length (ps @ [x]) = Suc i" using Cons.prems by simp
      show "i < Suc i" by simp
      show "(ps @ [x]) ! i = x" using Cons.prems(1) by (auto simp: nth_append)
      show "\<forall>k<Suc i. (ps @ [x]) ! k \<le> x"
        using Cons.prems True by (auto simp: nth_append less_Suc_eq)
      show "\<forall>k<i. (ps @ [x]) ! k < x"
        using Cons.prems True by (auto simp: nth_append)
    qed
    with True show ?thesis by simp
  next
    case False
    have "argmax_loop best mx (Suc i) xs < length ((ps @ [x]) @ xs)
       \<and> (\<forall>k<length ((ps @ [x]) @ xs). ((ps @ [x]) @ xs) ! k \<le> ((ps @ [x]) @ xs) ! argmax_loop best mx (Suc i) xs)
       \<and> (\<forall>k<argmax_loop best mx (Suc i) xs. ((ps @ [x]) @ xs) ! k < ((ps @ [x]) @ xs) ! argmax_loop best mx (Suc i) xs)"
    proof (rule Cons.IH)
      show "length (ps @ [x]) = Suc i" using Cons.prems by simp
      show "best < Suc i" using Cons.prems by simp
      show "(ps @ [x]) ! best = mx" using Cons.prems by (simp add: nth_append)
      show "\<forall>k<Suc i. (ps @ [x]) ! k \<le> mx"
        using Cons.prems False by (auto simp: nth_append less_Suc_eq)
      show "\<forall>k<best. (ps @ [x]) ! k < mx"
        using Cons.prems by (auto simp: nth_append)
    qed
    with False show ?thesis by simp
  qed
qed

lemma np_argmax_spec:
  assumes "xs \<noteq> []"
  shows "\<exists>j<length xs. np_argmax xs = Inr j \<and> (\<forall>k<length xs. xs ! k \<le> xs ! j) \<and> (\<forall>k<j. xs ! k < xs ! j)"
proof -
  obtain x r where xs: "xs = x # r" using assms by (cases xs) auto
  have "argmax_loop 0 x 1 r < length ([x] @ r)
       \<and> (\<forall>k<length ([x] @ r). ([x] @ r) ! k \<le> ([x] @ r) ! argmax_loop 0 x 1 r)
       \<and> (\<forall>k<argmax_loop 0 x 1 r. ([x] @ r) ! k < ([x] @ r) ! argmax_loop 0 x 1 r)"
    by (rule argmax_loop_spec) auto
  then show ?thesis unfolding xs np_argmax_def by auto
qed

lemma mask_select_map:
  "mask_select (map P xs) (map g xs) = Inr (map g (filter P xs))"
  unfolding mask_select_def by (induction xs) auto

lemma sum_list_filter_upt:
  "sum_list (map (h::nat \<Rightarrow> real) (filter P [0..<m])) = (\<Sum>k | k < m \<and> P k. h k)"
proof -
  have "sum_list (map h (filter P [0..<m])) = sum h (set (filter P [0..<m]))"
    by (rule sum_list_distinct_conv_sum_set) simp
  also have "set (filter P [0..<m]) = {k. k < m \<and> P k}" by auto
  finally show ?thesis .
qed

lemma length_hann [simp]: "length (hann M) = M"
  by (simp add: hann_def)

subsection \<open>Double precision\<close>

lemma two_powr_neg: "2 powr of_int (- int p) = 1 / (2::real) ^ p"
proof -
  have "2 powr of_int (- int p) = 2 powr (- real p)" by simp
  also have "\<dots> = inverse (2 powr real p)" by (rule powr_minus)
  also have "2 powr real p = (2::real) ^ p" by (rule powr_realpow) simp
  finally show ?thesis by (simp add: divide_inverse)
qed

lemma floor_log2_scaled:
  assumes "0 < x" and "2 ^ 52 \<le> x * 2 ^ p" and "x * 2 ^ p < 2 ^ 53"
  shows "\<lfloor>log 2 x\<rfloor> = 52 - int p"
proof -
  have a: "2 powr of_int (52 - int p) = 2 ^ 52 / (2::real) ^ p"
  proof -
    have "2 powr of_int (52 - int p) = 2 powr (real 52 - real p)" by simp
    also have "\<dots> = 2 powr real 52 / 2 powr real p" by (rule powr_diff)
    also have "2 powr real 52 = (2::real) ^ 52" by (rule powr_realpow) simp
    also have "2 powr real p = (2::real) ^ p" by (rule powr_realpow) simp
    finally show ?thesis .
  qed
  have b: "2 powr of_int (52 - int p + 1) = 2 ^ 53 / (2::real) ^ p"
  proof -
    have "2 powr of_int (52 - int p + 1) = 2 powr (real 53 - real p)" by simp
    also have "\<dots> = 2 powr real 53 / 2 powr real p" by (rule powr_diff)
    also have "2 powr real 53 = (2::real) ^ 53" by (rule powr_realpow) simp
    also have "2 powr real p = (2::real) ^ p" by (rule powr_realpow) simp
    finally show ?thesis .
  qed
  have c: "2 ^ 52 / (2::real) ^ p \<le> x"
    using assms(2) by (simp add: pos_divide_le_eq)
  have d: "x < 2 ^ 53 / (2::real) ^ p"
    using assms(3) by (simp add: pos_less_divide_eq)
  have "2 powr of_int (52 - int p) \<le> x \<and> x < 2 powr of_int (52 - int p + 1)"
    unfolding a b using c d by (rule conjI)
  then show ?thesis
    using floor_log_eq_powr_iff[of x 2 "52 - int p"] assms(1) by (simp del: of_int_diff of_int_add)
qed

lemma round_half_even_near:
  assumes "\<bar>y - of_int m\<bar> < 1 / 2"
  shows "round_half_even y = m"
proof (cases "of_int m \<le> y")
  case True
  then have f: "\<lfloor>y\<rfloor> = m" using assms unfolding floor_eq_iff by linarith
  show ?thesis unfolding round_half_even_def f using assms True by auto
next
  case False
  then have f: "\<lfloor>y\<rfloor> = m - 1" using assms unfolding floor_eq_iff of_int_diff by linarith
  have "1 / 2 < y - of_int (m - 1)" using assms False unfolding of_int_diff by linarith
  then show ?thesis unfolding round_half_even_def f by auto
qed

text \<open>
  The rounding of a positive number, given its scale: \<open>x * 2 ^ p\<close> lies between \<open>2 ^ 52\<close>
  and \<open>2 ^ 53\<close> and is nearer to the integer \<open>m\<close> than to any other.
\<close>

lemma double_round_eqI:
  assumes "0 < x" and "2 ^ 52 \<le> x * 2 ^ p" and "x * 2 ^ p < 2 ^ 53" and "p \<le> 1074"
    and "\<bar>x * 2 ^ p - of_int m\<bar> < 1 / 2"
  shows "double_round x = of_int m / 2 ^ p"
proof -
  have "\<lfloor>log 2 \<bar>x\<bar>\<rfloor> = 52 - int p"
    using floor_log2_scaled[OF assms(1-3)] assms(1) by simp
  then have e: "max \<lfloor>log 2 \<bar>x\<bar>\<rfloor> (- 1022) - 52 = - int p"
    using assms(4) by linarith
  have q: "x / (1 / 2 ^ p) = x * 2 ^ p" by simp
  have "double_round x = of_int (round_half_even (x / (1 / 2 ^ p))) * (1 / 2 ^ p)"
    unfolding double_round_def e two_powr_neg using assms(1) by simp
  also have "\<dots> = of_int m * (1 / 2 ^ p)"
    unfolding q round_half_even_near[OF assms(5)] ..
  finally show ?thesis by simp
qed

lemma axis_frequency_0: "axis_frequency n 0 = 0"
  by (simp add: axis_frequency_def float_div_def float_of_int_def double_round_def)

text \<open>Four rows: bin 1 is at 25 Hz exactly, as \<open>1 / (4 / 100)\<close> is in double precision.\<close>

lemma axis_frequency_4_1: "axis_frequency 4 1 = 25"
proof -
  have n: "float_of_int 4 = 4"
  proof -
    have "double_round 4 = of_int 4503599627370496 / 2 ^ 50"
      by (rule double_round_eqI) simp_all
    then show ?thesis by (simp add: float_of_int_def)
  qed
  have T: "float_div 4 SAMPLING_FREQUENCY = 5764607523034235 / 2 ^ 57"
  proof -
    have "double_round (4 / 100) = of_int 5764607523034235 / 2 ^ 57"
      by (rule double_round_eqI) simp_all
    then show ?thesis by (simp add: float_div_def SAMPLING_FREQUENCY_def)
  qed
  have k: "float_of_int 1 = 1"
  proof -
    have "double_round 1 = of_int 4503599627370496 / 2 ^ 52"
      by (rule double_round_eqI) simp_all
    then show ?thesis by (simp add: float_of_int_def)
  qed
  have q: "double_round (1 / (5764607523034235 / 2 ^ 57)) = of_int 7036874417766400 / 2 ^ 48"
    by (rule double_round_eqI) simp_all
  have "axis_frequency 4 1 = float_div 1 (5764607523034235 / 2 ^ 57)"
    unfolding axis_frequency_def n k T ..
  also have "\<dots> = of_int 7036874417766400 / 2 ^ 48"
    unfolding float_div_def by (rule q)
  finally show ?thesis by simp
qed

text \<open>
  Twenty-eight rows: bin 7 stands for 25 Hz, and the code's two divisions give
  \<open>25 - 2 ^ - 48\<close> (24.999999999999996).
\<close>

lemma axis_frequency_28_7: "axis_frequency 28 7 = 25 - 1 / 2 ^ 48"
proof -
  have n: "float_of_int 28 = 28"
  proof -
    have "double_round 28 = of_int 7881299347898368 / 2 ^ 48"
      by (rule double_round_eqI) simp_all
    then show ?thesis by (simp add: float_of_int_def)
  qed
  have T: "float_div 28 SAMPLING_FREQUENCY = 5044031582654956 / 2 ^ 54"
  proof -
    have "double_round (28 / 100) = of_int 5044031582654956 / 2 ^ 54"
      by (rule double_round_eqI) simp_all
    then show ?thesis by (simp add: float_div_def SAMPLING_FREQUENCY_def)
  qed
  have k: "float_of_int 7 = 7"
  proof -
    have "double_round 7 = of_int 7881299347898368 / 2 ^ 50"
      by (rule double_round_eqI) simp_all
    then show ?thesis by (simp add: float_of_int_def)
  qed
  have q: "double_round (7 / (5044031582654956 / 2 ^ 54)) = of_int 7036874417766399 / 2 ^ 48"
    by (rule double_round_eqI) simp_all
  have "axis_frequency 28 7 = float_div 7 (5044031582654956 / 2 ^ 54)"
    unfolding axis_frequency_def n k T ..
  also have "\<dots> = of_int 7036874417766399 / 2 ^ 48"
    unfolding float_div_def by (rule q)
  finally show ?thesis by simp
qed

section \<open>The band extractor on a spectral frame\<close>

lemma take_as_map_nth: "m \<le> length xs \<Longrightarrow> take m xs = map (\<lambda>i. xs ! i) [0..<m]"
  by (simp add: list_eq_iff_nth_eq)

lemma tremor_amplitude_unfold:
  assumes len: "length (transformed_signal fr) = n" "length (filtered_signal fr) = n"
    and n: "2 \<le> n"
  shows "tremor_amplitude E self fr lo hi =
     (let ts = map (\<lambda>k. complex_divide E (transformed_signal fr ! k) n) [0..<n div 2];
          self1 = self\<lparr>amplitude :=
            (\<Sum>k | k < n div 2 \<and> in_band lo hi (axis_frequency n k). complex_abs E (complex_divide E (transformed_signal fr ! k) n))\<rparr>
      in case np_argmax (map (complex_abs E) ts) of Inl e \<Rightarrow> (self1, Some e)
         | Inr j \<Rightarrow> (self1\<lparr>frequency := axis_frequency n j\<rparr>, None))"
proof -
  let ?h = "n div 2"
  let ?X = "transformed_signal fr"
  let ?f = "axis_frequency n"
  let ?g = "\<lambda>k. complex_divide E (?X ! k) n"
  have h: "?h \<le> n" by simp
  have frq: "take_range (nat (py_int (real n / 2))) (map ?f [0..<n]) = Inr (map ?f [0..<?h])"
    by (simp add: take_range_def py_int_half take_map)
  have ts: "take_range (nat (py_int (real n / 2))) (map (\<lambda>z. complex_divide E z n) ?X) = Inr (map ?g [0..<?h])"
    using len by (simp add: take_range_def py_int_half take_map take_as_map_nth)
  have sel: "mask_select (map (\<lambda>f. lo < f \<and> f < hi) (map ?f [0..<?h])) (map ?g [0..<?h])
     = Inr (map ?g (filter (\<lambda>k. lo < ?f k \<and> ?f k < hi) [0..<?h]))"
    using mask_select_map[of "\<lambda>k. lo < ?f k \<and> ?f k < hi" "[0..<?h]" ?g] by (simp add: comp_def)
  have amp: "sum_list (map (complex_abs E) (map ?g (filter (\<lambda>k. lo < ?f k \<and> ?f k < hi) [0..<?h])))
     = (\<Sum>k | k < ?h \<and> in_band lo hi (axis_frequency n k). complex_abs E (?g k))"
  proof -
    have "sum_list (map (complex_abs E) (map ?g (filter (\<lambda>k. lo < ?f k \<and> ?f k < hi) [0..<?h])))
        = sum_list (map (\<lambda>k. complex_abs E (?g k)) (filter (\<lambda>k. lo < ?f k \<and> ?f k < hi) [0..<?h]))"
      by (simp add: comp_def)
    also have "\<dots> = (\<Sum>k | k < ?h \<and> (lo < ?f k \<and> ?f k < hi). complex_abs E (?g k))"
      by (rule sum_list_filter_upt)
    also have "\<dots> = (\<Sum>k | k < ?h \<and> in_band lo hi (axis_frequency n k). complex_abs E (?g k))"
      by (simp add: in_band_def)
    finally show ?thesis .
  qed
  have nth: "\<And>j. j < ?h \<Longrightarrow> map ?f [0..<?h] ! j = axis_frequency n j"
    by simp
  have jlt: "\<And>j. np_argmax (map (complex_abs E) (map ?g [0..<?h])) = Inr j \<Longrightarrow> j < ?h"
    using np_argmax_spec[of "map (complex_abs E) (map ?g [0..<?h])"] n
    by (cases "map (complex_abs E) (map ?g [0..<?h]) = []") auto
  show ?thesis
    unfolding tremor_amplitude_def Let_def len frq ts sel amp sum.case
    using nth jlt by (auto split: sum.splits)
qed

lemma fft_signal_frame_lengths:
  assumes "fft_signal df window = Inr fr"
  shows "length (transformed_signal fr) = length (filtered_signal fr)"
  using assms
  by (auto simp: fft_signal_def pd_DataFrame_def Let_def split: sum.splits if_splits)

text \<open>
  Claim C1, as amended. On a spectral frame of \<open>n \<ge> 2\<close> rows (the excerpt and its
  transform have the same length, as every frame built by \<^verbatim>\<open>fft_signal\<close> has:
  \<open>fft_signal_frame_lengths\<close>), \<^verbatim>\<open>tremor_amplitude\<close> raises nothing, sets \<open>amplitude\<close> to
  the sum of the magnitudes of the transform bins divided by \<open>n\<close>, over exactly the
  one-sided bins \<open>k < n div 2\<close> whose frequency as the code computes it,
  \<open>k / (n / sampling_rate)\<close> with both divisions rounded to double precision, lies
  strictly between the two bounds, and sets \<open>frequency\<close> to the computed frequency of the
  first bin of greatest magnitude among all one-sided bins, whether or not that bin is
  in the band. The magnitudes are those numpy computes; the theorem holds for every
  division and absolute value.
\<close>

theorem tremor_amplitude_band_sum_and_peak:
  assumes "length (transformed_signal fr) = n" and "length (filtered_signal fr) = n"
    and "2 \<le> n"
  shows "\<exists>j<n div 2.
     tremor_amplitude E self fr low_hz high_hz =
       (self\<lparr>amplitude :=
           (\<Sum>k | k < n div 2 \<and> in_band low_hz high_hz (axis_frequency n k).
              complex_abs E (complex_divide E (transformed_signal fr ! k) n)),
         frequency := axis_frequency n j\<rparr>, None)
     \<and> (\<forall>k<n div 2. complex_abs E (complex_divide E (transformed_signal fr ! k) n)
                       \<le> complex_abs E (complex_divide E (transformed_signal fr ! j) n))
     \<and> (\<forall>k<j. complex_abs E (complex_divide E (transformed_signal fr ! k) n)
                 < complex_abs E (complex_divide E (transformed_signal fr ! j) n))"
proof -
  let ?ms = "map (complex_abs E)
      (map (\<lambda>k. complex_divide E (transformed_signal fr ! k) n) [0..<n div 2])"
  have "?ms \<noteq> []" using assms(3) by simp
  from np_argmax_spec[OF this] obtain j where j: "j < n div 2" "np_argmax ?ms = Inr j"
    "\<forall>k<n div 2. ?ms ! k \<le> ?ms ! j" "\<forall>k<j. ?ms ! k < ?ms ! j"
    by auto
  have "tremor_amplitude E self fr low_hz high_hz =
       (self\<lparr>amplitude :=
           (\<Sum>k | k < n div 2 \<and> in_band low_hz high_hz (axis_frequency n k).
              complex_abs E (complex_divide E (transformed_signal fr ! k) n)),
         frequency := axis_frequency n j\<rparr>, None)"
    unfolding tremor_amplitude_unfold[OF assms] Let_def j(2) by simp
  moreover have "\<forall>k<n div 2. complex_abs E (complex_divide E (transformed_signal fr ! k) n)
                       \<le> complex_abs E (complex_divide E (transformed_signal fr ! j) n)"
    using j(1,3) by auto
  moreover have "\<forall>k<j. complex_abs E (complex_divide E (transformed_signal fr ! k) n)
                 < complex_abs E (complex_divide E (transformed_signal fr ! j) n)"
    using j(1,4) by auto
  ultimately show ?thesis using j(1) by blast
qed

lemma sample_spectrum_band: "{k. k < 2 \<and> in_band 20 30 (axis_frequency 4 k)} = {1::nat}"
proof -
  have "k < 2 \<and> in_band 20 30 (axis_frequency 4 k) \<longleftrightarrow> k = 1" for k :: nat
  proof -
    consider "k = 0" | "k = 1" | "2 \<le> k" by linarith
    then show ?thesis
      by cases
        (simp_all add: in_band_def axis_frequency_0 axis_frequency_4_1[unfolded One_nat_def])
  qed
  then show ?thesis by blast
qed

lemma sample_magnitude:
  "complex_abs sample_env (complex_divide sample_env z n) = cmod (z / of_nat n)"
  by (simp add: sample_env_def)

text \<open>
  At the sample spectrum with the band (20, 30) Hz: bin 1 (25 Hz) is the only bin in
  the band, and the peak is bin 0 (0 Hz), outside the band.
\<close>

theorem tremor_amplitude_band_sum_and_peak_witness:
  "tremor_amplitude sample_env TremorProcessor_init sample_spectrum 20 30
     = (\<lparr>amplitude = 5 / 4, frequency = 0\<rparr>, None)
   \<and> \<not> in_band 20 30 0"
proof -
  let ?X = "transformed_signal sample_spectrum"
  have len: "length ?X = 4" "length (filtered_signal sample_spectrum) = 4"
    by (simp_all add: sample_spectrum_def)
  have "\<exists>j<4 div 2. tremor_amplitude sample_env TremorProcessor_init sample_spectrum 20 30 =
       (TremorProcessor_init\<lparr>amplitude :=
           (\<Sum>k | k < 4 div 2 \<and> in_band 20 30 (axis_frequency 4 k).
              complex_abs sample_env (complex_divide sample_env (?X ! k) 4)),
         frequency := axis_frequency 4 j\<rparr>, None)
     \<and> (\<forall>k<4 div 2. complex_abs sample_env (complex_divide sample_env (?X ! k) 4)
                       \<le> complex_abs sample_env (complex_divide sample_env (?X ! j) 4))
     \<and> (\<forall>k<j. complex_abs sample_env (complex_divide sample_env (?X ! k) 4)
                 < complex_abs sample_env (complex_divide sample_env (?X ! j) 4))"
    by (rule tremor_amplitude_band_sum_and_peak[OF len]) simp
  then obtain j where j: "j < 4 div 2"
    and eq: "tremor_amplitude sample_env TremorProcessor_init sample_spectrum 20 30 =
       (TremorProcessor_init\<lparr>amplitude :=
           (\<Sum>k | k < 4 div 2 \<and> in_band 20 30 (axis_frequency 4 k).
              complex_abs sample_env (complex_divide sample_env (?X ! k) 4)),
         frequency := axis_frequency 4 j\<rparr>, None)"
    and mx: "\<forall>k<4 div 2. complex_abs sample_env (complex_divide sample_env (?X ! k) 4)
                       \<le> complex_abs sample_env (complex_divide sample_env (?X ! j) 4)"
    by blast
  have "j = 0 \<or> j = 1" using j by auto
  moreover have "j \<noteq> 1"
  proof
    assume "j = 1"
    with mx[rule_format, of 0] have "cmod (?X ! 0 / of_nat 4) \<le> cmod (?X ! 1 / of_nat 4)"
      by (simp add: sample_magnitude)
    then show False by (simp add: sample_spectrum_def norm_divide)
  qed
  ultimately have j0: "j = 0" by simp
  have h: "4 div 2 = (2::nat)" by simp
  show ?thesis
    unfolding eq j0 h sample_spectrum_band axis_frequency_0 sample_magnitude
    by (simp add: sample_spectrum_def TremorProcessor_init_def in_band_def norm_divide)
qed

lemma edge_spectrum_bins:
  assumes "k < 14"
  shows "transformed_signal edge_spectrum ! k = (if k = 7 then 28 else 0)"
proof -
  have "(replicate 7 (0::complex) @ [28] @ replicate 13 0 @ [28] @ replicate 6 0) ! k
      = (if k = 7 then 28 else 0)"
    using assms by (auto simp: nth_append nth_Cons')
  then show ?thesis by (simp add: edge_spectrum_def)
qed

text \<open>
  Claim C1 as stated (the bins of the sum are those whose frequency
  \<open>k * sampling_rate / n\<close> lies strictly between the bounds) fails on the code. On the
  frame of 28 rows with the band (20, 25) Hz, bin 7 stands for 25 Hz, which is not
  strictly below 25; the code computes \<open>7 / (28 / 100)\<close> as \<open>25 - 2 ^ - 48\<close>, takes the bin
  into the band and sets the amplitude to 1, where the sum over the bins strictly inside
  the band is 0.
\<close>

theorem tremor_amplitude_band_edge:
  "\<not> in_band 20 25 (bin_frequency 28 7)
   \<and> in_band 20 25 (axis_frequency 28 7)
   \<and> amplitude (fst (tremor_amplitude sample_env TremorProcessor_init edge_spectrum 20 25)) = 1
   \<and> (\<Sum>k | k < 28 div 2 \<and> in_band 20 25 (bin_frequency 28 k).
         cmod (transformed_signal edge_spectrum ! k / of_nat 28)) = 0"
proof -
  let ?X = "transformed_signal edge_spectrum"
  let ?g = "\<lambda>k::nat. cmod (?X ! k / of_nat 28)"
  have exact: "\<not> in_band 20 25 (bin_frequency 28 7)"
    by (simp add: in_band_def bin_frequency_def SAMPLING_FREQUENCY_def)
  have code: "in_band 20 25 (axis_frequency 28 7)"
    by (simp add: in_band_def axis_frequency_28_7)
  have g: "?g k = (if k = 7 then 1 else 0)" if "k < 14" for k
    using edge_spectrum_bins[OF that] by (simp add: norm_divide)
  have len: "length ?X = 28" "length (filtered_signal edge_spectrum) = 28"
    by (simp_all add: edge_spectrum_def)
  let ?S = "{k. k < 28 div 2 \<and> in_band 20 25 (axis_frequency 28 k)}"
  have fin: "finite ?S" by simp
  have mem: "7 \<in> ?S" using code by simp
  have "(\<Sum>k\<in>?S. ?g k) = (\<Sum>k\<in>?S. if k = 7 then 1 else 0)"
  proof (rule sum.cong)
    show "?S = ?S" ..
    fix k assume "k \<in> ?S"
    then have "k < 14" by simp
    then show "?g k = (if k = 7 then 1 else 0)" by (rule g)
  qed
  also have "\<dots> = 1" using fin mem by (simp only: sum.delta) simp
  finally have amp: "(\<Sum>k\<in>?S. ?g k) = 1" .
  have two: "(2::nat) \<le> 28" by simp
  have "amplitude (fst (tremor_amplitude sample_env TremorProcessor_init edge_spectrum 20 25))
      = (\<Sum>k\<in>?S. ?g k)"
    unfolding tremor_amplitude_unfold[OF len two] Let_def sample_magnitude
    by (simp split: sum.splits)
  then have a1:
    "amplitude (fst (tremor_amplitude sample_env TremorProcessor_init edge_spectrum 20 25)) = 1"
    using amp by simp
  have "(\<Sum>k | k < 28 div 2 \<and> in_band 20 25 (bin_frequency 28 k). ?g k) = 0"
  proof (rule sum.neutral, rule ballI)
    fix k assume "k \<in> {k. k < 28 div 2 \<and> in_band 20 25 (bin_frequency 28 k)}"
    then have k: "k < 14" and b: "in_band 20 25 (bin_frequency 28 k)" by simp_all
    from b exact have "k \<noteq> 7" by auto
    with g[OF k] show "?g k = 0" by simp
  qed
  with exact code a1 show ?thesis by (intro conjI)
qed

section \<open>The band extractor on a Welch estimate\<close>

lemma mask_select_nth:
  assumes "length fl = length xs"
  shows "mask_select (map P fl) xs
     = Inr (map (\<lambda>k. xs ! k) (filter (\<lambda>k. P (fl ! k)) [0..<length xs]))"
proof -
  have fl: "map P fl = map (\<lambda>k. P (fl ! k)) [0..<length xs]"
    using assms by (auto intro: nth_equalityI)
  have xs: "map (\<lambda>k. xs ! k) [0..<length xs] = xs"
    by (rule map_nth)
  have "mask_select (map P fl) xs
      = mask_select (map (\<lambda>k. P (fl ! k)) [0..<length xs]) (map (\<lambda>k. xs ! k) [0..<length xs])"
    by (simp only: fl xs)
  also have "\<dots> = Inr (map (\<lambda>k. xs ! k) (filter (\<lambda>k. P (fl ! k)) [0..<length xs]))"
    by (rule mask_select_map)
  finally show ?thesis .
qed

lemma welch_unfold:
  assumes col: "getattr_column ''filtered_signal'' df = Inr xs"
    and psd: "welch E xs SAMPLING_FREQUENCY window = Inr (frq, pxx)"
    and len: "length frq = length pxx"
    and j: "np_argmax pxx = Inr j" "j < length pxx"
  shows "tremor_amplitude_by_welch E self df window lo hi =
     (self\<lparr>frequency := frq ! j,
            amplitude := (\<Sum>k | k < length pxx \<and> in_band lo hi (frq ! k). pxx ! k)\<rparr>, None)"
proof -
  have sel: "mask_select (map (\<lambda>f. lo < f \<and> f < hi) frq) pxx
     = Inr (map (\<lambda>k. pxx ! k) (filter (\<lambda>k. lo < frq ! k \<and> frq ! k < hi) [0..<length pxx]))"
    by (rule mask_select_nth[OF len])
  have amp: "sum_list (map (\<lambda>k. pxx ! k) (filter (\<lambda>k. lo < frq ! k \<and> frq ! k < hi) [0..<length pxx]))
     = (\<Sum>k | k < length pxx \<and> in_band lo hi (frq ! k). pxx ! k)"
    unfolding in_band_def by (rule sum_list_filter_upt)
  show ?thesis
    using j(2) len by (simp add: tremor_amplitude_by_welch_def col psd j(1) sel amp)
qed

text \<open>
  Claim C2. \<^verbatim>\<open>tremor_amplitude_by_welch\<close> hands the whole \<^verbatim>\<open>filtered_signal\<close> column
  to the Welch routine, with the sampling frequency and the window size as segment
  length. When the routine returns a non-empty estimate (frequencies and powers of the
  same length), the method raises nothing, sets \<open>frequency\<close> to the frequency of the
  first bin of greatest power among all bins, and sets \<open>amplitude\<close> to the sum of the
  powers of exactly the bins whose frequency lies strictly between the two bounds.
\<close>

theorem welch_band_sum_and_peak:
  assumes "getattr_column ''filtered_signal'' df = Inr xs"
    and "welch E xs SAMPLING_FREQUENCY window = Inr (frq, pxx)"
    and "length frq = length pxx" and "pxx \<noteq> []"
  shows "\<exists>j<length pxx.
     tremor_amplitude_by_welch E self df window low_hz high_hz =
       (self\<lparr>frequency := frq ! j,
              amplitude := (\<Sum>k | k < length pxx \<and> in_band low_hz high_hz (frq ! k). pxx ! k)\<rparr>,
        None)
     \<and> (\<forall>k<length pxx. pxx ! k \<le> pxx ! j) \<and> (\<forall>k<j. pxx ! k < pxx ! j)"
proof -
  from np_argmax_spec[OF assms(4)] obtain j where j: "j < length pxx" "np_argmax pxx = Inr j"
    "\<forall>k<length pxx. pxx ! k \<le> pxx ! j" "\<forall>k<j. pxx ! k < pxx ! j"
    by auto
  from welch_unfold[OF assms(1-3) j(2,1)] j show ?thesis by blast
qed

lemma sample_welch_band: "{k. k < 3 \<and> in_band 30 60 ([0, 25, 50::real] ! k)} = {2::nat}"
proof -
  have "k < 3 \<and> in_band 30 60 ([0, 25, 50::real] ! k) \<longleftrightarrow> k = 2" for k :: nat
  proof -
    consider "k = 0" | "k = 1" | "k = 2" | "3 \<le> k" by linarith
    then show ?thesis by cases (simp_all add: in_band_def)
  qed
  then show ?thesis by blast
qed

text \<open>
  At the sample estimate with the band (30, 60) Hz: the bin at 50 Hz is the only one in
  the band, and the peak is the bin at 25 Hz, outside the band.
\<close>

theorem welch_band_sum_and_peak_witness:
  "tremor_amplitude_by_welch sample_env TremorProcessor_init filtered_frame 4 30 60
     = (\<lparr>amplitude = 2, frequency = 25\<rparr>, None)
   \<and> \<not> in_band 30 60 25"
proof -
  let ?frq = "[0, 25, 50::real]" and ?pxx = "[1, 3, 2::real]"
  have col: "getattr_column ''filtered_signal'' filtered_frame = Inr [1, 2, 3, 4, 5]"
    by (simp add: getattr_column_def filtered_frame_def)
  have psd: "welch sample_env [1, 2, 3, 4, 5] SAMPLING_FREQUENCY 4 = Inr (?frq, ?pxx)"
    by (simp add: sample_env_def SAMPLING_FREQUENCY_def)
  have "\<exists>j<length ?pxx.
     tremor_amplitude_by_welch sample_env TremorProcessor_init filtered_frame 4 30 60 =
       (TremorProcessor_init\<lparr>frequency := ?frq ! j,
              amplitude := (\<Sum>k | k < length ?pxx \<and> in_band 30 60 (?frq ! k). ?pxx ! k)\<rparr>,
        None)
     \<and> (\<forall>k<length ?pxx. ?pxx ! k \<le> ?pxx ! j) \<and> (\<forall>k<j. ?pxx ! k < ?pxx ! j)"
    by (rule welch_band_sum_and_peak[OF col psd]) simp_all
  then obtain j where j: "j < length ?pxx"
    and eq: "tremor_amplitude_by_welch sample_env TremorProcessor_init filtered_frame 4 30 60 =
       (TremorProcessor_init\<lparr>frequency := ?frq ! j,
              amplitude := (\<Sum>k | k < length ?pxx \<and> in_band 30 60 (?frq ! k). ?pxx ! k)\<rparr>,
        None)"
    and mx: "\<forall>k<length ?pxx. ?pxx ! k \<le> ?pxx ! j"
    by blast
  have "j = 0 \<or> j = 1 \<or> j = 2" using j by auto
  moreover have m1: "?pxx ! 1 \<le> ?pxx ! j" using mx[rule_format, of 1] by simp
  moreover have "j \<noteq> 0" using m1 by (intro notI) simp
  moreover have "j \<noteq> 2" using m1 by (intro notI) simp
  ultimately have j1: "j = 1" by blast
  have l3: "length ?pxx = 3" by simp
  show ?thesis
    unfolding eq j1 l3 sample_welch_band
    by (simp add: TremorProcessor_init_def in_band_def)
qed

section \<open>The empty band\<close>



section \<open>The centred excerpt of \<^verbatim>\<open>fft_signal\<close>\<close>

lemma wf_frame_column_length:
  assumes "wf_frame df" and "getattr_column name df = Inr v"
  shows "length v = length (index df)"
proof -
  from assms(2) have "map_of (columns df) name = Some v"
    by (simp add: getattr_column_def split: option.splits)
  then have "(name, v) \<in> set (columns df)" by (rule map_of_SomeD)
  with assms(1) show ?thesis by (auto simp: wf_frame_def list_all_iff)
qed

lemma length_py_slice_le: "length (py_slice a b xs) \<le> length xs"
  by (simp add: py_slice_def)

lemma length_py_slice_cong:
  "length xs = length ys \<Longrightarrow> length (py_slice a b xs) = length (py_slice a b ys)"
  by (simp add: py_slice_def)

lemma floor_half_diff: "\<lfloor>real L / 2 - real w / 2\<rfloor> = (int L - int w) div 2"
proof -
  have "real L / 2 - real w / 2 = real_of_int (int L - int w) / real_of_int 2"
    by (simp add: field_simps)
  then show ?thesis by (simp only: floor_divide_of_int_eq)
qed

lemma floor_half_sum: "\<lfloor>real L / 2 + real w / 2\<rfloor> = (int L + int w) div 2"
proof -
  have "real L / 2 + real w / 2 = real_of_int (int L + int w) / real_of_int 2"
    by (simp add: field_simps)
  then show ?thesis by (simp only: floor_divide_of_int_eq)
qed

lemma centred_bounds:
  assumes "w \<le> L"
  shows "py_int (real L / 2 - real w / 2) = \<lfloor>real L / 2 - real w / 2\<rfloor>"
    and "py_int (real L / 2 + real w / 2) = \<lfloor>real L / 2 + real w / 2\<rfloor>"
    and "0 \<le> \<lfloor>real L / 2 - real w / 2\<rfloor>"
    and "nat \<lfloor>real L / 2 + real w / 2\<rfloor> = nat \<lfloor>real L / 2 - real w / 2\<rfloor> + w"
    and "nat \<lfloor>real L / 2 + real w / 2\<rfloor> \<le> L"
proof -
  show "py_int (real L / 2 - real w / 2) = \<lfloor>real L / 2 - real w / 2\<rfloor>"
    using assms by (simp add: py_int_def)
  show "py_int (real L / 2 + real w / 2) = \<lfloor>real L / 2 + real w / 2\<rfloor>"
    by (simp add: py_int_def)
  show "0 \<le> \<lfloor>real L / 2 - real w / 2\<rfloor>"
    unfolding floor_half_diff using assms by simp
  show "nat \<lfloor>real L / 2 + real w / 2\<rfloor> = nat \<lfloor>real L / 2 - real w / 2\<rfloor> + w"
    unfolding floor_half_diff floor_half_sum using assms by linarith
  show "nat \<lfloor>real L / 2 + real w / 2\<rfloor> \<le> L"
    unfolding floor_half_sum using assms by linarith
qed

lemma py_slice_centred:
  assumes "w \<le> L" and "length xs = L"
  shows "py_slice (py_int (real L / 2 - real w / 2)) (py_int (real L / 2 + real w / 2)) xs
       = excerpt (nat \<lfloor>real L / 2 - real w / 2\<rfloor>) (nat \<lfloor>real L / 2 + real w / 2\<rfloor>) xs"
    and "length (py_slice (py_int (real L / 2 - real w / 2)) (py_int (real L / 2 + real w / 2)) xs) = w"
proof -
  let ?a = "nat \<lfloor>real L / 2 - real w / 2\<rfloor>"
  note cb = centred_bounds[OF assms(1)]
  have b: "nat \<lfloor>real L / 2 + real w / 2\<rfloor> = ?a + w" by (rule cb(4))
  have le: "?a + w \<le> L" using cb(4,5) by simp
  have sa: "slice_bound \<lfloor>real L / 2 - real w / 2\<rfloor> L = ?a"
    using cb(3) le by (simp add: slice_bound_def)
  have "0 \<le> \<lfloor>real L / 2 + real w / 2\<rfloor>" by (simp add: floor_half_sum)
  then have sb: "slice_bound \<lfloor>real L / 2 + real w / 2\<rfloor> L = ?a + w"
    using le b by (simp add: slice_bound_def)
  have sl: "py_slice (py_int (real L / 2 - real w / 2)) (py_int (real L / 2 + real w / 2)) xs
       = take w (drop ?a xs)"
    unfolding py_slice_def cb(1,2) assms(2) sa sb by simp
  show "length (py_slice (py_int (real L / 2 - real w / 2)) (py_int (real L / 2 + real w / 2)) xs) = w"
    unfolding sl using le assms(2) by simp
  have "take w (drop ?a xs) = map (\<lambda>i. xs ! i) [?a..<?a + w]"
    using le assms(2) by (auto intro!: nth_equalityI)
  then show "py_slice (py_int (real L / 2 - real w / 2)) (py_int (real L / 2 + real w / 2)) xs
       = excerpt ?a (nat \<lfloor>real L / 2 + real w / 2\<rfloor>) xs"
    unfolding sl excerpt_def b .
qed

lemma fft_signal_short:
  assumes fs: "getattr_column ''filtered_signal'' df = Inr fs"
    and td: "getattr_column ''td'' df = Inr td"
    and wf: "wf_frame df"
    and short: "length fs < window"
  shows "fft_signal df window = Inl ValueError"
proof -
  let ?ll = "py_int (real (length fs) / 2 - real window / 2)"
  let ?rr = "py_int (real (length fs) / 2 + real window / 2)"
  let ?msa = "py_slice ?ll ?rr fs"
  have idx: "length (py_slice ?ll ?rr (index df)) = length ?msa"
    using wf_frame_column_length[OF wf fs] by (intro length_py_slice_cong) simp
  have m: "length ?msa < window"
    using length_py_slice_le[of ?ll ?rr fs] short by simp
  show ?thesis
  proof (cases "length ?msa = 1")
    case True
    then have w2: "window \<noteq> 1" "window \<noteq> 0" using m by auto
    have mul: "np_multiply ?msa (hann window) = Inr (map (\<lambda>y. hd ?msa * y) (hann window))"
      using True w2 by (simp add: np_multiply_def)
    have "map (\<lambda>y. hd ?msa * y) (hann window) \<noteq> []"
      using w2 by (simp add: hann_def)
    then obtain t where t: "fft (map (\<lambda>y. hd ?msa * y) (hann window)) = Inr t"
      by (simp add: fft_def)
    show ?thesis
      unfolding fft_signal_def fs td Let_def sum.case mul t
      using True idx w2 by (simp add: pd_DataFrame_def)
  next
    case False
    show ?thesis
    proof (cases "window = 1")
      case True
      then have "?msa = []" using m by simp
      then have mul: "np_multiply ?msa (hann window) = Inr []"
        using True by (simp add: np_multiply_def)
      show ?thesis
        unfolding fft_signal_def fs td Let_def sum.case mul
        by (simp add: fft_def)
    next
      case w: False
      have mul: "np_multiply ?msa (hann window) = Inl ValueError"
        using False w m by (simp add: np_multiply_def)
      show ?thesis
        unfolding fft_signal_def fs td Let_def sum.case mul by simp
    qed
  qed
qed

lemma fft_signal_centred:
  assumes fs: "getattr_column ''filtered_signal'' df = Inr fs"
    and td: "getattr_column ''td'' df = Inr td"
    and wf: "wf_frame df"
    and w: "0 < window" "window \<le> length fs"
  shows "\<exists>ts. fft (map2 (*) (excerpt (nat \<lfloor>real (length fs) / 2 - real window / 2\<rfloor>)
                                   (nat \<lfloor>real (length fs) / 2 + real window / 2\<rfloor>) fs) (hann window)) = Inr ts
     \<and> fft_signal df window = Inr
       \<lparr>sf_index = excerpt (nat \<lfloor>real (length fs) / 2 - real window / 2\<rfloor>)
                            (nat \<lfloor>real (length fs) / 2 + real window / 2\<rfloor>) (index df),
        filtered_signal = map2 (*) (excerpt (nat \<lfloor>real (length fs) / 2 - real window / 2\<rfloor>)
                                   (nat \<lfloor>real (length fs) / 2 + real window / 2\<rfloor>) fs) (hann window),
        transformed_signal = ts,
        dt = excerpt (nat \<lfloor>real (length fs) / 2 - real window / 2\<rfloor>)
                     (nat \<lfloor>real (length fs) / 2 + real window / 2\<rfloor>) td\<rparr>
     \<and> length ts = window"
proof -
  let ?L = "length fs"
  let ?a = "nat \<lfloor>real ?L / 2 - real window / 2\<rfloor>"
  let ?b = "nat \<lfloor>real ?L / 2 + real window / 2\<rfloor>"
  let ?ll = "py_int (real ?L / 2 - real window / 2)"
  let ?rr = "py_int (real ?L / 2 + real window / 2)"
  have li: "length (index df) = ?L" using wf_frame_column_length[OF wf fs] by simp
  have lt: "length td = ?L"
    using wf_frame_column_length[OF wf fs] wf_frame_column_length[OF wf td] by simp
  have s1: "py_slice ?ll ?rr fs = excerpt ?a ?b fs" "length (py_slice ?ll ?rr fs) = window"
    using py_slice_centred[OF w(2), of fs] by simp_all
  have s2: "py_slice ?ll ?rr (index df) = excerpt ?a ?b (index df)"
    "length (py_slice ?ll ?rr (index df)) = window"
    using py_slice_centred[OF w(2) li] by simp_all
  have s3: "py_slice ?ll ?rr td = excerpt ?a ?b td" "length (py_slice ?ll ?rr td) = window"
    using py_slice_centred[OF w(2) lt] by simp_all
  let ?mw = "map2 (*) (excerpt ?a ?b fs) (hann window)"
  have lmw: "length ?mw = window" using s1 by simp
  have mul: "np_multiply (py_slice ?ll ?rr fs) (hann window) = Inr ?mw"
    using s1 by (simp add: np_multiply_def)
  have "?mw \<noteq> []"
  proof
    assume "?mw = []"
    then have "length ?mw = 0" by (simp only: list.size)
    with lmw w(1) show False by linarith
  qed
  then obtain ts where ts: "fft ?mw = Inr ts" "length ts = window"
    using lmw by (simp add: fft_def)
  have "fft_signal df window = Inr
       \<lparr>sf_index = excerpt ?a ?b (index df), filtered_signal = ?mw,
        transformed_signal = ts, dt = excerpt ?a ?b td\<rparr>"
    unfolding fft_signal_def fs td Let_def sum.case mul ts(1)
    using s2 s3 lmw ts(2) by (simp add: pd_DataFrame_def)
  with ts show ?thesis by blast
qed

text \<open>
  Claim C4. On a frame with the \<^verbatim>\<open>filtered_signal\<close> and \<^verbatim>\<open>td\<close> columns: when the filtered
  signal is shorter than the window, \<^verbatim>\<open>fft_signal\<close> raises and returns no frame (the
  exception is a ValueError: the excerpt does not fit the Hann window); when the window
  is positive and not longer than the signal, it returns the rows at the positions
  \<open>\<lfloor>len / 2 - window / 2\<rfloor>\<close> up to, and not including, \<open>\<lfloor>len / 2 + window / 2\<rfloor>\<close>: their
  labels, their time stamps, their filtered values tapered by the Hann window, and the
  transform of the tapered values, \<open>window\<close> rows in all.
\<close>

theorem fft_signal_window_range:
  assumes "getattr_column ''filtered_signal'' df = Inr fs"
    and "getattr_column ''td'' df = Inr td"
    and "wf_frame df"
  shows "(length fs < window \<longrightarrow> fft_signal df window = Inl ValueError)
     \<and> (0 < window \<and> window \<le> length fs \<longrightarrow>
          (\<exists>ts. fft (map2 (*) (excerpt (nat \<lfloor>real (length fs) / 2 - real window / 2\<rfloor>)
                                   (nat \<lfloor>real (length fs) / 2 + real window / 2\<rfloor>) fs) (hann window)) = Inr ts
             \<and> fft_signal df window = Inr
               \<lparr>sf_index = excerpt (nat \<lfloor>real (length fs) / 2 - real window / 2\<rfloor>)
                                    (nat \<lfloor>real (length fs) / 2 + real window / 2\<rfloor>) (index df),
                filtered_signal = map2 (*) (excerpt (nat \<lfloor>real (length fs) / 2 - real window / 2\<rfloor>)
                                   (nat \<lfloor>real (length fs) / 2 + real window / 2\<rfloor>) fs) (hann window),
                transformed_signal = ts,
                dt = excerpt (nat \<lfloor>real (length fs) / 2 - real window / 2\<rfloor>)
                             (nat \<lfloor>real (length fs) / 2 + real window / 2\<rfloor>) td\<rparr>
             \<and> length ts = window))"
  using fft_signal_short[OF assms] fft_signal_centred[OF assms] by blast

lemma hann_3: "hann 3 = [0, 1, 0]"
proof -
  have u: "[0..<3] = [0, 1, 2]" by (simp add: upt_rec)
  have c: "cos (2 * pi * real (2::nat) / real (3 - 1 :: nat)) = 1"
    by simp
  have d: "cos (2 * pi * real (1::nat) / real (3 - 1 :: nat)) = - 1" by simp
  show ?thesis unfolding hann_def u using c d by simp
qed

text \<open>
  On the five filtered rows: a window of 8 raises, and a window of 3 returns the rows
  1, 2 and 3.
\<close>

theorem fft_signal_window_range_witness:
  "fft_signal filtered_frame 8 = Inl ValueError
   \<and> (\<exists>ts. fft [0, 3, 0] = Inr ts
        \<and> fft_signal filtered_frame 3 = Inr
             \<lparr>sf_index = [10000000, 20000000, 30000000], filtered_signal = [0, 3, 0],
              transformed_signal = ts, dt = [1 / 100, 2 / 100, 3 / 100]\<rparr>)"
proof -
  have col: "getattr_column ''filtered_signal'' filtered_frame = Inr [1, 2, 3, 4, 5]"
    by (simp add: getattr_column_def filtered_frame_def)
  have td: "getattr_column ''td'' filtered_frame = Inr [0, 1 / 100, 2 / 100, 3 / 100, 4 / 100]"
    by (simp add: getattr_column_def filtered_frame_def)
  have wf: "wf_frame filtered_frame"
    by (simp add: wf_frame_def filtered_frame_def)
  have a: "nat \<lfloor>real (length [1, 2, 3, 4, 5::real]) / 2 - real (3::nat) / 2\<rfloor> = 1"
    by simp
  have b: "nat \<lfloor>real (length [1, 2, 3, 4, 5::real]) / 2 + real (3::nat) / 2\<rfloor> = 4"
    by simp
  have u: "[1..<4] = [1, 2, 3]" by (simp add: upt_rec)
  have e1: "excerpt 1 4 [1, 2, 3, 4, 5::real] = [2, 3, 4]"
    and e2: "excerpt 1 4 (index filtered_frame) = [10000000, 20000000, 30000000]"
    and e3: "excerpt 1 4 [0, 1 / 100, 2 / 100, 3 / 100, 4 / 100::real] = [1 / 100, 2 / 100, 3 / 100]"
    unfolding excerpt_def u by (simp_all add: filtered_frame_def)
  have m: "map2 (*) [2, 3, 4] (hann 3) = [0, 3, 0]"
    unfolding hann_3 by simp
  from fft_signal_window_range[OF col td wf, of 8]
  have short: "fft_signal filtered_frame 8 = Inl ValueError" by simp
  from fft_signal_window_range[OF col td wf, of 3]
  have "\<exists>ts. fft [0, 3, 0] = Inr ts
        \<and> fft_signal filtered_frame 3 = Inr
             \<lparr>sf_index = [10000000, 20000000, 30000000], filtered_signal = [0, 3, 0],
              transformed_signal = ts, dt = [1 / 100, 2 / 100, 3 / 100]\<rparr>"
    unfolding a b e1 e2 e3 m by auto
  with short show ?thesis by blast
qed

section \<open>Resampling\<close>

lemma length_np_arange: "length (np_arange a b h) = nat \<lceil>(b - a) / h\<rceil>"
  by (simp add: np_arange_def)

lemma nth_np_arange:
  "i < length (np_arange a b h) \<Longrightarrow> np_arange a b h ! i = a + real i * h"
  by (simp add: np_arange_def)

lemma resample_signal_unfold:
  assumes "getattr_column ''td'' df = Inr td" and "getattr_column ''mag_sum_acc'' df = Inr mag"
    and "td \<noteq> []" and "R \<noteq> 0"
    and "pd_resample_mean E (1 / R) df = Inr df_resampled"
    and "interp1d E td mag = Inr f"
  shows "resample_signal E df R =
           (case f (np_arange (hd td) (last td) (1 / R)) of Inl e \<Rightarrow> Inl e
            | Inr ys \<Rightarrow>
                (case setattr_column ''mag_sum_acc'' ys df_resampled of Inl e \<Rightarrow> Inl e
                 | Inr d \<Rightarrow> pd_interpolate E d))"
  using assms by (simp add: resample_signal_def)

lemma short_grid: "np_arange 0 (25 / 1000) (1 / 100) = [0, 1 / 100, 2 / 100]"
proof -
  have "nat \<lceil>(25 / 1000 - 0) / (1 / 100 :: real)\<rceil> = 3" by simp
  moreover have "[0..<3] = [0, 1, 2]" by (simp add: upt_rec)
  ultimately show ?thesis by (simp add: np_arange_def)
qed

lemma resample_short_recording:
  "resample_signal sample_env short_recording 100 =
     Inr \<lparr>index = [0, 10000000, 20000000],
          columns = [(''td'', [0, 1 / 100, 25 / 1000]), (''x'', [0, 1, 0]),
                     (''mag_sum_acc'', [1, 2, 4 / 3])]\<rparr>"
proof -
  let ?td = "[0, 1 / 100, 25 / 1000 :: real]"
  have td: "getattr_column ''td'' short_recording = Inr ?td"
    by (simp add: getattr_column_def short_recording_def)
  have mag: "getattr_column ''mag_sum_acc'' short_recording = Inr [1, 2, 1]"
    by (simp add: getattr_column_def short_recording_def)
  have bins: "pd_resample_mean sample_env (1 / 100) short_recording =
      Inr (short_recording\<lparr>index := [0, 10000000, 20000000]\<rparr>)"
    by (simp add: sample_env_def short_recording_def)
  have f: "interp1d sample_env ?td [1, 2, 1] = Inr (collect (linear_at ?td [1, 2, 1]))"
    by (simp add: sample_env_def sample_interp1d_def)
  have ys: "collect (linear_at ?td [1, 2, 1]) [0, 1 / 100, 2 / 100] = Inr [1, 2, 4 / 3]"
    by simp
  have g: "np_arange (hd ?td) (last ?td) (1 / 100) = [0, 1 / 100, 2 / 100]"
  proof -
    have "hd ?td = 0" and "last ?td = 25 / 1000" by simp_all
    then show ?thesis by (simp only: short_grid)
  qed
  have a: "setattr_column ''mag_sum_acc'' [1, 2, 4 / 3]
             (short_recording\<lparr>index := [0, 10000000, 20000000]\<rparr>) =
     Inr \<lparr>index = [0, 10000000, 20000000],
          columns = [(''td'', [0, 1 / 100, 25 / 1000]), (''x'', [0, 1, 0]),
                     (''mag_sum_acc'', [1, 2, 4 / 3])]\<rparr>"
    by (simp add: setattr_column_def setitem_column_def short_recording_def)
  have i: "pd_interpolate sample_env = Inr" by (simp add: sample_env_def)
  have "resample_signal sample_env short_recording 100 =
           (case collect (linear_at ?td [1, 2, 1]) (np_arange (hd ?td) (last ?td) (1 / 100)) of
              Inl e \<Rightarrow> Inl e
            | Inr ys \<Rightarrow>
                (case setattr_column ''mag_sum_acc'' ys
                        (short_recording\<lparr>index := [0, 10000000, 20000000]\<rparr>) of Inl e \<Rightarrow> Inl e
                 | Inr d \<Rightarrow> pd_interpolate sample_env d))"
    by (rule resample_signal_unfold[OF td mag _ _ bins f]) simp_all
  then show ?thesis
    unfolding g ys sum.case a i .
qed

lemma two_sample_grid: "np_arange 0 (1 / 100) (1 / 100) = [0]"
proof -
  have "nat \<lceil>(1 / 100 - 0) / (1 / 100 :: real)\<rceil> = 1" by simp
  then show ?thesis by (simp add: np_arange_def)
qed

text \<open>
  Claim C7 (for every valid signal \<^verbatim>\<open>resample_signal\<close> evaluates the interpolant on the
  uniform grid, so that consecutive output time stamps differ by \<open>1 / R\<close>) fails on the
  code. Two samples 10 ms apart are a valid signal; resampled at 100 Hz they fall into two
  bins, the grid \<open>arange (0, 0.01, 0.01)\<close> has one point, and the assignment of one value
  to the two rows raises ValueError. On the recording of 25 ms the call returns, and
  the \<^verbatim>\<open>td\<close> column of the returned frame is the bin average of the input's, 0, 10 and
  25 ms, beside magnitudes evaluated at 0, 10 and 20 ms.
\<close>

theorem resample_output_not_uniform:
  "resample_signal sample_env two_sample_recording 100 = Inl ValueError
   \<and> resample_signal sample_env short_recording 100 =
       Inr \<lparr>index = [0, 10000000, 20000000],
            columns = [(''td'', [0, 1 / 100, 25 / 1000]), (''x'', [0, 1, 0]),
                       (''mag_sum_acc'', [1, 2, 4 / 3])]\<rparr>"
proof -
  let ?td = "[0, 1 / 100 :: real]"
  have td: "getattr_column ''td'' two_sample_recording = Inr ?td"
    by (simp add: getattr_column_def two_sample_recording_def)
  have mag: "getattr_column ''mag_sum_acc'' two_sample_recording = Inr [1, 2]"
    by (simp add: getattr_column_def two_sample_recording_def)
  have bins: "pd_resample_mean sample_env (1 / 100) two_sample_recording
      = Inr two_sample_recording"
    by (simp add: sample_env_def two_sample_recording_def)
  have f: "interp1d sample_env ?td [1, 2] = Inr (collect (linear_at ?td [1, 2]))"
    by (simp add: sample_env_def sample_interp1d_def)
  have g: "np_arange (hd ?td) (last ?td) (1 / 100) = [0]"
  proof -
    have "hd ?td = 0" and "last ?td = 1 / 100" by simp_all
    then show ?thesis by (simp only: two_sample_grid)
  qed
  have ys: "collect (linear_at ?td [1, 2]) [0] = Inr [1]"
    by simp
  have a: "setattr_column ''mag_sum_acc'' [1] two_sample_recording = Inl ValueError"
    by (simp add: setattr_column_def setitem_column_def two_sample_recording_def)
  have "resample_signal sample_env two_sample_recording 100 =
           (case collect (linear_at ?td [1, 2]) (np_arange (hd ?td) (last ?td) (1 / 100)) of
              Inl e \<Rightarrow> Inl e
            | Inr ys \<Rightarrow>
                (case setattr_column ''mag_sum_acc'' ys two_sample_recording of Inl e \<Rightarrow> Inl e
                 | Inr d \<Rightarrow> pd_interpolate sample_env d))"
    by (rule resample_signal_unfold[OF td mag _ _ bins f]) simp_all
  then have "resample_signal sample_env two_sample_recording 100 = Inl ValueError"
    unfolding g ys sum.case a .
  with resample_short_recording show ?thesis by (intro conjI)
qed

text \<open>
  For \<open>n\<close> samples exactly \<open>1 / R\<close> apart the grid stops before the last sample: it has
  \<open>n - 1\<close> points, one fewer than the samples (and than the bins, one for each sample).
\<close>

lemma uniform_grid_one_short:
  assumes "0 < R" and "2 \<le> n"
  shows "length (np_arange t0 (t0 + real (n - 1) / R) (1 / R)) = n - 1"
proof -
  have "(t0 + real (n - 1) / R - t0) / (1 / R) = real_of_int (int (n - 1))"
    using assms(1) by simp
  then have "\<lceil>(t0 + real (n - 1) / R - t0) / (1 / R)\<rceil> = int (n - 1)"
    by (simp only: ceiling_of_int)
  then show ?thesis by (simp add: length_np_arange)
qed

lemma uniform_grid: "np_arange 0 (2 / 100) (1 / 100) = [0, 1 / 100]"
proof -
  have "nat \<lceil>(2 / 100 - 0) / (1 / 100 :: real)\<rceil> = 2" by simp
  moreover have "[0..<2] = [0, 1]" by (simp add: upt_rec)
  ultimately show ?thesis by (simp add: np_arange_def)
qed

text \<open>
  Claim C8 (resampling a uniform signal at its own rate returns the same signal) fails
  on the code. On three samples 10 ms apart, resampled at 100 Hz, bin averaging keeps the
  three rows, the grid \<open>arange (0, 0.02, 0.01)\<close> has two points, and the assignment of
  two values to the three rows raises ValueError.
\<close>

theorem resample_uniform_recording_raises:
  "resample_signal sample_env uniform_recording 100 = Inl ValueError
   \<and> length (np_arange 0 (2 / 100) (1 / 100)) = 2
   \<and> length (index uniform_recording) = 3"
proof -
  let ?td = "[0, 1 / 100, 2 / 100 :: real]"
  have td: "getattr_column ''td'' uniform_recording = Inr ?td"
    by (simp add: getattr_column_def uniform_recording_def)
  have mag: "getattr_column ''mag_sum_acc'' uniform_recording = Inr [1, 2, 1]"
    by (simp add: getattr_column_def uniform_recording_def)
  have bins: "pd_resample_mean sample_env (1 / 100) uniform_recording = Inr uniform_recording"
    by (simp add: sample_env_def uniform_recording_def)
  have f: "interp1d sample_env ?td [1, 2, 1] = Inr (collect (linear_at ?td [1, 2, 1]))"
    by (simp add: sample_env_def sample_interp1d_def)
  have g: "np_arange (hd ?td) (last ?td) (1 / 100) = [0, 1 / 100]"
  proof -
    have "hd ?td = 0" and "last ?td = 2 / 100" by simp_all
    then show ?thesis by (simp only: uniform_grid)
  qed
  have ys: "collect (linear_at ?td [1, 2, 1]) [0, 1 / 100] = Inr [1, 2]"
    by simp
  have a: "setattr_column ''mag_sum_acc'' [1, 2] uniform_recording = Inl ValueError"
    by (simp add: setattr_column_def setitem_column_def uniform_recording_def)
  have "resample_signal sample_env uniform_recording 100 =
           (case collect (linear_at ?td [1, 2, 1]) (np_arange (hd ?td) (last ?td) (1 / 100)) of
              Inl e \<Rightarrow> Inl e
            | Inr ys \<Rightarrow>
                (case setattr_column ''mag_sum_acc'' ys uniform_recording of Inl e \<Rightarrow> Inl e
                 | Inr d \<Rightarrow> pd_interpolate sample_env d))"
    by (rule resample_signal_unfold[OF td mag _ _ bins f]) simp_all
  then have "resample_signal sample_env uniform_recording 100 = Inl ValueError"
    unfolding g ys sum.case a .
  moreover have "length (np_arange 0 (2 / 100) (1 / 100)) = 2"
    by (simp only: uniform_grid) simp
  moreover have "length (index uniform_recording) = 3"
    by (simp add: uniform_recording_def)
  ultimately show ?thesis by (intro conjI)
qed

section \<open>Filtering\<close>

lemma update_absent_appends:
  "k \<notin> fst ` set al \<Longrightarrow> AList.update k v al = al @ [(k, v)]"
  by (induction al) auto

lemma set_update_subset: "set (AList.update k v al) \<subseteq> insert (k, v) (set al)"
  by (induction al) auto

lemma getattr_setitem_other:
  assumes "setitem_column k v df = Inr df'" and "name \<noteq> k"
  shows "getattr_column name df' = getattr_column name df"
  using assms
  by (auto simp: setitem_column_def getattr_column_def update_conv' split: if_splits)

lemma getattr_setitem_same:
  assumes "setitem_column k v df = Inr df'"
  shows "getattr_column k df' = Inr v"
  using assms
  by (auto simp: setitem_column_def getattr_column_def update_conv' split: if_splits)

lemma wf_frame_setitem:
  assumes "setitem_column k v df = Inr df'" and "wf_frame df"
  shows "wf_frame df'" and "index df' = index df"
proof -
  from assms(1) have l: "length v = length (index df)"
    and d: "df' = df\<lparr>columns := AList.update k v (columns df)\<rparr>"
    by (auto simp: setitem_column_def split: if_splits)
  show "index df' = index df" unfolding d by simp
  show "wf_frame df'"
    using assms(2) l set_update_subset[of k v "columns df"]
    unfolding d wf_frame_def list_all_iff by auto
qed

lemma filter_signal_unfold:
  assumes "butter E order (2 * cutoff / SAMPLING_FREQUENCY) = Inr (b, a)"
    and "getattr_column ''mag_sum_acc'' df = Inr mag"
    and "lfilter E b a mag = Inr y"
  shows "filter_signal E df cutoff order = setitem_column ''filtered_signal'' y df"
  using assms by (simp add: filter_signal_def)

text \<open>
  Claim C9. On a frame with at least one row, when the design routine and \<^verbatim>\<open>lfilter\<close>
  return, \<^verbatim>\<open>filter_signal\<close> either raises ValueError (the filtered array is not as long
  as the magnitude column) or returns the frame with the filtered array as the
  \<^verbatim>\<open>filtered_signal\<close> column, of the length of the magnitude column; the index and
  every other column, \<^verbatim>\<open>mag_sum_acc\<close> among them, are as they were, and when the frame
  had no such column the new one is appended after the others.
\<close>

theorem filter_signal_adds_channel:
  assumes "butter E order (2 * cutoff / SAMPLING_FREQUENCY) = Inr (b, a)"
    and "getattr_column ''mag_sum_acc'' df = Inr mag"
    and "lfilter E b a mag = Inr y"
    and "wf_frame df" and "index df \<noteq> []"
  shows "(length y \<noteq> length mag \<longrightarrow> filter_signal E df cutoff order = Inl ValueError)
     \<and> (length y = length mag \<longrightarrow>
          (\<exists>df'. filter_signal E df cutoff order = Inr df'
             \<and> getattr_column ''filtered_signal'' df' = Inr y
             \<and> index df' = index df
             \<and> (\<forall>name. name \<noteq> ''filtered_signal'' \<longrightarrow>
                   getattr_column name df' = getattr_column name df)
             \<and> (''filtered_signal'' \<notin> fst ` set (columns df) \<longrightarrow>
                   columns df' = columns df @ [(''filtered_signal'', y)])
             \<and> wf_frame df'))"
proof (intro conjI impI)
  have lm: "length mag = length (index df)"
    by (rule wf_frame_column_length[OF assms(4,2)])
  note u = filter_signal_unfold[OF assms(1-3)]
  {
    assume "length y \<noteq> length mag"
    then show "filter_signal E df cutoff order = Inl ValueError"
      unfolding u using lm by (simp add: setitem_column_def)
  }
  {
    assume "length y = length mag"
    then have s: "setitem_column ''filtered_signal'' y df
        = Inr (df\<lparr>columns := AList.update ''filtered_signal'' y (columns df)\<rparr>)"
      using lm by (simp add: setitem_column_def)
    let ?df' = "df\<lparr>columns := AList.update ''filtered_signal'' y (columns df)\<rparr>"
    have "filter_signal E df cutoff order = Inr ?df'" unfolding u s ..
    moreover have "getattr_column ''filtered_signal'' ?df' = Inr y"
      by (rule getattr_setitem_same[OF s])
    moreover have "index ?df' = index df" by simp
    moreover have "\<forall>name. name \<noteq> ''filtered_signal'' \<longrightarrow>
                   getattr_column name ?df' = getattr_column name df"
      using getattr_setitem_other[OF s] by blast
    moreover have "''filtered_signal'' \<notin> fst ` set (columns df) \<longrightarrow>
                   columns ?df' = columns df @ [(''filtered_signal'', y)]"
      by (simp add: update_absent_appends)
    moreover have "wf_frame ?df'" by (rule wf_frame_setitem(1)[OF s assms(4)])
    ultimately show "\<exists>df'. filter_signal E df cutoff order = Inr df'
             \<and> getattr_column ''filtered_signal'' df' = Inr y
             \<and> index df' = index df
             \<and> (\<forall>name. name \<noteq> ''filtered_signal'' \<longrightarrow>
                   getattr_column name df' = getattr_column name df)
             \<and> (''filtered_signal'' \<notin> fst ` set (columns df) \<longrightarrow>
                   columns df' = columns df @ [(''filtered_signal'', y)])
             \<and> wf_frame df'"
      by blast
  }
qed

text \<open>The uniform recording, filtered with the default cutoff and order.\<close>

theorem filter_signal_adds_channel_witness:
  "filter_signal sample_env uniform_recording CUTOFF_FREQUENCY_HIGH FILTER_ORDER =
     Inr \<lparr>index = [0, 10000000, 20000000],
          columns = [(''td'', [0, 1 / 100, 2 / 100]), (''x'', [0, 1, 0]),
                     (''mag_sum_acc'', [1, 2, 1]), (''filtered_signal'', [1, 2, 1])]\<rparr>"
proof -
  have b: "butter sample_env FILTER_ORDER (2 * CUTOFF_FREQUENCY_HIGH / SAMPLING_FREQUENCY)
      = Inr ([1], [1])"
    by (simp add: sample_env_def CUTOFF_FREQUENCY_HIGH_def SAMPLING_FREQUENCY_def)
  have mag: "getattr_column ''mag_sum_acc'' uniform_recording = Inr [1, 2, 1]"
    by (simp add: getattr_column_def uniform_recording_def)
  have y: "lfilter sample_env [1] [1] [1, 2, 1] = Inr [1, 2, 1]"
    by (simp add: sample_env_def)
  have wf: "wf_frame uniform_recording"
    by (simp add: wf_frame_def uniform_recording_def)
  have ne: "index uniform_recording \<noteq> []"
    by (simp add: uniform_recording_def)
  have absent: "''filtered_signal'' \<notin> fst ` set (columns uniform_recording)"
    by (simp add: uniform_recording_def)
  from filter_signal_adds_channel[OF b mag y wf ne] absent
  obtain df' where "filter_signal sample_env uniform_recording CUTOFF_FREQUENCY_HIGH FILTER_ORDER = Inr df'"
    and "index df' = index uniform_recording"
    and "columns df' = columns uniform_recording @ [(''filtered_signal'', [1, 2, 1])]"
    by auto
  then show ?thesis by (cases df') (simp add: uniform_recording_def)
qed



section \<open>The \<^verbatim>\<open>process\<close> call and its handlers\<close>

lemma process_body_early_failure:
  assumes "resample_signal E df SAMPLING_FREQUENCY = Inl e
       \<or> (\<exists>r. resample_signal E df SAMPLING_FREQUENCY = Inr r
              \<and> filter_signal E r CUTOFF_FREQUENCY_HIGH FILTER_ORDER = Inl e)
       \<or> (\<exists>r g. resample_signal E df SAMPLING_FREQUENCY = Inr r
              \<and> filter_signal E r CUTOFF_FREQUENCY_HIGH FILTER_ORDER = Inr g
              \<and> method = ''fft'' \<and> fft_signal g WINDOW = Inl e)"
  shows "process_body E self df method = (self, Some e)"
  using assms by (auto simp: process_body_def)

lemma process_handlers:
  assumes "process_body E self df method = (self', r)"
  shows "process E self df method =
     (self', case r of None \<Rightarrow> None
             | Some e \<Rightarrow> if e = ValueError then Some AttributeError else None)"
  using assms by (simp add: process_def split: option.splits)

text \<open>
  Claim C3, as amended. When \<^verbatim>\<open>resample_signal\<close>, \<^verbatim>\<open>filter_signal\<close> or (on the fft
  path) \<^verbatim>\<open>fft_signal\<close> raises an exception other than ValueError, \<^verbatim>\<open>process\<close> returns
  normally and leaves the processor as it was: the failure does not reach the caller.
  The same holds for such an exception raised by the estimator, with the processor as
  the estimator left it.
\<close>

theorem process_swallows_other_exceptions:
  assumes "e \<noteq> ValueError"
  shows "(resample_signal E df SAMPLING_FREQUENCY = Inl e
       \<or> (\<exists>r. resample_signal E df SAMPLING_FREQUENCY = Inr r
              \<and> filter_signal E r CUTOFF_FREQUENCY_HIGH FILTER_ORDER = Inl e)
       \<or> (\<exists>r g. resample_signal E df SAMPLING_FREQUENCY = Inr r
              \<and> filter_signal E r CUTOFF_FREQUENCY_HIGH FILTER_ORDER = Inr g
              \<and> method = ''fft'' \<and> fft_signal g WINDOW = Inl e)
      \<longrightarrow> process E self df method = (self, None))
   \<and> (snd (process_body E self df method) = Some e
      \<longrightarrow> process E self df method = (fst (process_body E self df method), None))"
proof (intro conjI impI)
  assume "resample_signal E df SAMPLING_FREQUENCY = Inl e
       \<or> (\<exists>r. resample_signal E df SAMPLING_FREQUENCY = Inr r
              \<and> filter_signal E r CUTOFF_FREQUENCY_HIGH FILTER_ORDER = Inl e)
       \<or> (\<exists>r g. resample_signal E df SAMPLING_FREQUENCY = Inr r
              \<and> filter_signal E r CUTOFF_FREQUENCY_HIGH FILTER_ORDER = Inr g
              \<and> method = ''fft'' \<and> fft_signal g WINDOW = Inl e)"
  then have "process_body E self df method = (self, Some e)"
    by (rule process_body_early_failure)
  from process_handlers[OF this] assms show "process E self df method = (self, None)"
    by simp
next
  assume "snd (process_body E self df method) = Some e"
  then have "process_body E self df method = (fst (process_body E self df method), Some e)"
    by (simp add: prod_eq_iff)
  from process_handlers[OF this] assms
  show "process E self df method = (fst (process_body E self df method), None)"
    by simp
qed

lemma resample_without_td:
  "resample_signal sample_env frame_without_td SAMPLING_FREQUENCY = Inl AttributeError"
  by (simp add: resample_signal_def sample_env_def frame_without_td_def getattr_column_def
      SAMPLING_FREQUENCY_def)

text \<open>A frame without the \<^verbatim>\<open>td\<close> column, on the Welch path.\<close>

theorem process_swallows_other_exceptions_witness:
  "AttributeError \<noteq> ValueError
   \<and> resample_signal sample_env frame_without_td SAMPLING_FREQUENCY = Inl AttributeError
   \<and> process sample_env TremorProcessor_init frame_without_td ''welch''
        = (TremorProcessor_init, None)"
  using process_swallows_other_exceptions[of AttributeError sample_env frame_without_td
      "''welch''" TremorProcessor_init] resample_without_td
  by simp

text \<open>
  Claim C3 as stated (a stage failure propagates out of \<^verbatim>\<open>process\<close>) fails: on a frame
  without the \<^verbatim>\<open>td\<close> column \<^verbatim>\<open>resample_signal\<close> raises AttributeError, and \<^verbatim>\<open>process\<close>
  returns normally with the processor untouched.
\<close>

theorem process_hides_missing_column:
  "resample_signal sample_env frame_without_td SAMPLING_FREQUENCY = Inl AttributeError
   \<and> process sample_env TremorProcessor_init frame_without_td ''fft''
        = (TremorProcessor_init, None)"
proof -
  have "process_body sample_env TremorProcessor_init frame_without_td ''fft''
      = (TremorProcessor_init, Some AttributeError)"
    by (rule process_body_early_failure) (simp add: resample_without_td)
  from process_handlers[OF this] resample_without_td show ?thesis by simp
qed

text \<open>
  A ValueError of those stages leaves the processor as it was too, but its handler
  raises AttributeError.
\<close>

lemma process_value_error:
  assumes "resample_signal E df SAMPLING_FREQUENCY = Inl ValueError
       \<or> (\<exists>r. resample_signal E df SAMPLING_FREQUENCY = Inr r
              \<and> filter_signal E r CUTOFF_FREQUENCY_HIGH FILTER_ORDER = Inl ValueError)
       \<or> (\<exists>r g. resample_signal E df SAMPLING_FREQUENCY = Inr r
              \<and> filter_signal E r CUTOFF_FREQUENCY_HIGH FILTER_ORDER = Inr g
              \<and> method = ''fft'' \<and> fft_signal g WINDOW = Inl ValueError)"
  shows "process E self df method = (self, Some AttributeError)"
proof -
  from assms have "process_body E self df method = (self, Some ValueError)"
    by (rule process_body_early_failure)
  from process_handlers[OF this] show ?thesis by simp
qed

text \<open>
  Claim C10 (when a stage raises, \<^verbatim>\<open>process\<close> returns normally with the fields
  unchanged) fails on the code for a ValueError. The recording of 25 ms is resampled
  and filtered to three rows, fewer than the window of 256, so \<^verbatim>\<open>fft_signal\<close> raises
  ValueError; the fields stay 0 and 0, and \<^verbatim>\<open>process\<close> raises AttributeError.
\<close>

theorem process_short_recording_raises:
  "resample_signal sample_env short_recording SAMPLING_FREQUENCY =
     Inr \<lparr>index = [0, 10000000, 20000000],
          columns = [(''td'', [0, 1 / 100, 25 / 1000]), (''x'', [0, 1, 0]),
                     (''mag_sum_acc'', [1, 2, 4 / 3])]\<rparr>
   \<and> filter_signal sample_env
        \<lparr>index = [0, 10000000, 20000000],
         columns = [(''td'', [0, 1 / 100, 25 / 1000]), (''x'', [0, 1, 0]),
                    (''mag_sum_acc'', [1, 2, 4 / 3])]\<rparr> CUTOFF_FREQUENCY_HIGH FILTER_ORDER =
     Inr \<lparr>index = [0, 10000000, 20000000],
          columns = [(''td'', [0, 1 / 100, 25 / 1000]), (''x'', [0, 1, 0]),
                     (''mag_sum_acc'', [1, 2, 4 / 3]), (''filtered_signal'', [1, 2, 4 / 3])]\<rparr>
   \<and> fft_signal
        \<lparr>index = [0, 10000000, 20000000],
         columns = [(''td'', [0, 1 / 100, 25 / 1000]), (''x'', [0, 1, 0]),
                    (''mag_sum_acc'', [1, 2, 4 / 3]), (''filtered_signal'', [1, 2, 4 / 3])]\<rparr> WINDOW
       = Inl ValueError
   \<and> process sample_env TremorProcessor_init short_recording ''fft''
       = (TremorProcessor_init, Some AttributeError)"
proof -
  let ?r = "\<lparr>index = [0, 10000000, 20000000],
          columns = [(''td'', [0, 1 / 100, 25 / 1000]), (''x'', [0, 1, 0]),
                     (''mag_sum_acc'', [1, 2, 4 / 3])]\<rparr>"
  let ?g = "\<lparr>index = [0, 10000000, 20000000],
          columns = [(''td'', [0, 1 / 100, 25 / 1000]), (''x'', [0, 1, 0]),
                     (''mag_sum_acc'', [1, 2, 4 / 3]), (''filtered_signal'', [1, 2, 4 / 3])]\<rparr>"
  let ?td = "[0, 1 / 100, 25 / 1000 :: real]"
  have "resample_signal sample_env short_recording 100 = Inr ?r"
    by (rule resample_short_recording)
  then have r: "resample_signal sample_env short_recording SAMPLING_FREQUENCY = Inr ?r"
    by (simp add: SAMPLING_FREQUENCY_def)
  have fl: "filter_signal sample_env ?r CUTOFF_FREQUENCY_HIGH FILTER_ORDER = Inr ?g"
    by (simp add: filter_signal_def sample_env_def getattr_column_def setitem_column_def
        CUTOFF_FREQUENCY_HIGH_def SAMPLING_FREQUENCY_def)
  have "fft_signal ?g WINDOW = Inl ValueError"
  proof (rule fft_signal_short)
    show "getattr_column ''filtered_signal'' ?g = Inr [1, 2, 4 / 3]"
      by (simp add: getattr_column_def)
    show "getattr_column ''td'' ?g = Inr ?td" by (simp add: getattr_column_def)
    show "wf_frame ?g" by (simp add: wf_frame_def)
    show "length [1, 2, 4 / 3 :: real] < WINDOW" by (simp add: WINDOW_def)
  qed
  with r fl show ?thesis using process_value_error[of sample_env short_recording "''fft''"]
    by blast
qed

end
